theory Spec2Isabelle
  imports Main "HOL-Library.Char_ord" "HOL-Library.List_Lexorder" "HOL-Library.AList"
    "HOL-Library.Word"
begin

section \<open>Schema: field types, values, fields, models\<close>

text \<open>
  The field types that the sources name (package \<open>fieldtype\<close>, used by the
  \<open>DeclareField\<close> functions, the cache and the query builder). \<open>Char'\<close> is
  \<open>fieldtype.Char\<close>.
\<close>

datatype fieldtype =
    NoType | Binary | Boolean | Char' | Date | DateTime | Float | HTML | Integer
  | Many2Many | Many2One | One2Many | One2One | Rev2One | Selection | Text

text \<open>
  Modelled from the spec: \<open>fieldtype.Type.IsFKRelationType\<close> is not in the sources.
  The spec (4.1, 4.2) speaks of the relation kinds whose own column holds the foreign key of
  the related row: many-to-one and one-to-one.
\<close>

definition IsFKRelationType :: "fieldtype \<Rightarrow> bool" where
  "IsFKRelationType t = (t = Many2One \<or> t = One2One)"

text \<open>
  The dynamic values (\<open>interface{}\<close>) that the modelled code handles: \<open>nil\<close>, an
  \<open>int64\<close>, a \<open>bool\<close>, a \<open>string\<close>, a \<open>[]int64\<close> given by a caller, a
  \<open>RecordSet\<close> (model name and ids). \<open>VIdSet\<close> is a \<open>[]int64\<close> that the code builds
  while ranging over a Go map: the order of its elements is left open by Go, so
  it is given as the set of its elements.
\<close>

datatype val =
    VNil | VInt int | VBool bool | VStr string | VIds "int list" | VIdSet "int set"
  | VRecordSet string "int list"

text \<open>
  Package \<open>operator\<close> is not in the sources, which name \<open>operator.Equals\<close> and
  \<open>operator.NotEquals\<close>; every other operator is told apart by its text.
\<close>

datatype operator = Equals | NotEquals | OtherOperator string

text \<open>
  A \<open>predicate\<close> of a \<open>Condition\<close>; a \<open>Condition\<close> is the list of its predicates, and
  \<open>cond\<close> is the nested condition of a predicate with \<open>isCond\<close>.
\<close>

datatype predicate = Predicate
  (exprs: "string list")
  (operator: operator)
  (arg: val)
  (cond: "predicate list")
  (isOr: bool)
  (isNot: bool)
  (isCond: bool)

text \<open>
  A \<open>*Model\<close> pointer is the name of the model (names are unique in the registry) and a
  registry dereferences it. A \<open>*Field\<close> pointer that the code only reads the \<open>name\<close> of
  (\<open>m2mOurField\<close>, \<open>m2mTheirField\<close>) is that name. \<open>relatedModel\<close> is \<open>None\<close> where the
  Go pointer is \<open>nil\<close>. \<open>inverse'\<close> is the member \<open>inverse\<close>.
\<close>

record Field =
  name :: string
  json :: string
  fieldType :: fieldtype
  required :: bool
  stored :: bool
  compute :: string
  inverse' :: string
  relatedModel :: "string option"
  reverseFK :: string
  jsonReverseFK :: string
  m2mRelModel :: string
  m2mOurField :: string
  m2mTheirField :: string

record Model =
  modelName :: string
  modelTableName :: string
  modelFields :: "Field list"

type_synonym registry = "string \<Rightarrow> Model"

text \<open>
  A panic (\<open>log.Panic\<close>, a failed type assertion, a nil dereference) and an \<open>error\<close>
  value that a function returns.
\<close>

datatype error = Panic string | Err string

text \<open>
  Modelled from the spec: \<open>FieldsCollection.Get\<close> is not in the sources. The schema
  registry "resolves a field name/path to its Field descriptor" (spec 6) and columns are
  "named by each field's storage (json) name": a field is found by its name, else by its
  json name. \<open>MustGet\<close> is \<open>Get\<close> that panics on an unknown field.
\<close>

definition fieldsGet :: "Field list \<Rightarrow> string \<Rightarrow> Field option" where
  "fieldsGet fs n =
     (case find (\<lambda>f. name f = n) fs of
        Some f \<Rightarrow> Some f
      | None \<Rightarrow> find (\<lambda>f. json f = n) fs)"

definition MustGet :: "Field list \<Rightarrow> string \<Rightarrow> error + Field" where
  "MustGet fs n =
     (case fieldsGet fs n of
        None \<Rightarrow> Inl (Panic ''Unknown field in model'')
      | Some f \<Rightarrow> Inr f)"

text \<open>
  What the modelled functions call that is not in the sources; each is a parameter: the
  dialect adapter's \<open>quoteTableName\<close> and \<open>operatorSQL\<close>, the helpers \<open>jsonizePath\<close>,
  \<open>jsonizeExpr\<close>, \<open>Model.getRelatedFieldInfo\<close> (given the expressions of the path),
  \<open>nbutils.CastToInteger\<close> (\<open>None\<close> where it returns an error), \<open>Condition.IsEmpty\<close>
  and the constant \<open>sqlSep\<close>.
\<close>

record deps =
  quoteTableName :: "string \<Rightarrow> string"
  operatorSQL :: "operator \<Rightarrow> val \<Rightarrow> string \<times> val"
  jsonizePath :: "Model \<Rightarrow> string \<Rightarrow> string"
  jsonizeExpr :: "Model \<Rightarrow> string list \<Rightarrow> error + string list"
  getRelatedFieldInfo :: "Model \<Rightarrow> string list \<Rightarrow> error + Field"
  CastToInteger :: "val \<Rightarrow> int option"
  IsEmpty :: "predicate list \<Rightarrow> bool"
  sqlSep :: string

section \<open>Table joins\<close>

text \<open>The struct \<open>tableJoin\<close>; its member \<open>alias\<close> is \<open>tjAlias\<close> here (\<open>alias\<close> is a keyword).\<close>

datatype tableJoin = TableJoin
  (tableName: string)
  (joined: bool)
  (innerJoin: bool)
  (field: string)
  (otherTable: "tableJoin option")
  (otherField: string)
  (tjAlias: string)
  (expr: string)

text \<open>\<open>tableJoin.sqlString\<close>: the FROM or JOIN clause of one join.\<close>

definition sqlString :: "tableJoin \<Rightarrow> string" where
  "sqlString t =
     (if \<not> joined t then tableName t @ '' '' @ tjAlias t @ '' ''
      else
        (if innerJoin t then ''INNER '' else ''LEFT '') @ ''JOIN '' @
        tableName t @ '' '' @ tjAlias t @ '' ON '' @
        (case otherTable t of None \<Rightarrow> [] | Some ot \<Rightarrow> tjAlias ot) @ ''.'' @ otherField t @
        ''='' @ tjAlias t @ ''.'' @ field t @ '' '')"

text \<open>
  The loop of \<open>Query.generateTableJoins\<close>: \<open>curMI\<close>, \<open>curTJ\<close> and \<open>alias\<close> are the loop's
  variables, the list is what remains of \<open>fieldExprs\<close> from index \<open>i\<close> on (so
  \<open>i = exprsLen - 1\<close> is an empty tail and \<open>fieldExprs[i+1]\<close> is the head of the tail). The
  result is what the loop appends to \<open>joins\<close>. The \<open>switch\<close> has no default: for any other
  type \<open>field\<close> and \<open>otherField\<close> stay empty.
\<close>

fun joinsLoop ::
  "deps \<Rightarrow> registry \<Rightarrow> Model \<Rightarrow> tableJoin \<Rightarrow> string \<Rightarrow> string list \<Rightarrow> error + tableJoin list"
where
  "joinsLoop ad reg curMI curTJ al [] = Inr []"
| "joinsLoop ad reg curMI curTJ al (e # rest) =
     (case fieldsGet (modelFields curMI) e of
        None \<Rightarrow> Inl (Panic ''Unparsable Expression'')
      | Some fi \<Rightarrow>
         (case relatedModel fi of
            None \<Rightarrow> Inr []
          | Some rm \<Rightarrow>
             if rest = [] \<and> IsFKRelationType (fieldType fi) then Inr []
             else
               let tjExpr = (case rest of [] \<Rightarrow> [] | e' # _ \<Rightarrow> e');
                   relMI = reg rm
               in
               if fieldType fi = Many2Many then
                 let m2m = reg (m2mRelModel fi);
                     al1 = al @ sqlSep ad @ modelTableName m2m;
                     tj = TableJoin
                            (quoteTableName ad (modelTableName m2m)) True False
                            (jsonizePath ad m2m (m2mOurField fi))
                            (Some curTJ) ''id''
                            (quoteTableName ad al1)
                            (jsonizePath ad m2m (m2mTheirField fi));
                     al2 = al1 @ sqlSep ad @ modelTableName relMI;
                     nextTJ = TableJoin
                            (quoteTableName ad (modelTableName relMI)) True (required fi)
                            ''id''
                            (Some tj) (jsonizePath ad m2m (m2mTheirField fi))
                            (quoteTableName ad al2)
                            (if tjExpr = [] then ''id'' else tjExpr)
                 in (case joinsLoop ad reg relMI nextTJ al2 rest of
                       Inl err \<Rightarrow> Inl err
                     | Inr js \<Rightarrow> Inr (tj # nextTJ # js))
               else
                 let fld = (if fieldType fi = Many2One \<or> fieldType fi = One2One then ''id''
                            else if fieldType fi = One2Many \<or> fieldType fi = Rev2One
                            then jsonizePath ad relMI (reverseFK fi)
                            else []);
                     ofld = (if fieldType fi = Many2One \<or> fieldType fi = One2One then e
                            else if fieldType fi = One2Many \<or> fieldType fi = Rev2One
                            then ''id''
                            else []);
                     tjExpr' = (if (fieldType fi = One2Many \<or> fieldType fi = Rev2One)
                                   \<and> tjExpr = [] then ''id'' else tjExpr);
                     al2 = al @ sqlSep ad @ modelTableName relMI;
                     nextTJ = TableJoin
                            (quoteTableName ad (modelTableName relMI)) True (required fi)
                            fld (Some curTJ) ofld
                            (quoteTableName ad al2)
                            tjExpr'
                 in (case joinsLoop ad reg relMI nextTJ al2 rest of
                       Inl err \<Rightarrow> Inl err
                     | Inr js \<Rightarrow> Inr (nextTJ # js))))"

text \<open>The join of the query's own table, with which \<open>generateTableJoins\<close> starts.\<close>

definition rootJoin :: "deps \<Rightarrow> Model \<Rightarrow> string list \<Rightarrow> tableJoin" where
  "rootJoin ad mi fieldExprs =
     TableJoin (quoteTableName ad (modelTableName mi)) False False [] None []
       (quoteTableName ad (modelTableName mi))
       (case fieldExprs of [] \<Rightarrow> [] | e # _ \<Rightarrow> e)"

definition generateTableJoins ::
  "deps \<Rightarrow> registry \<Rightarrow> Model \<Rightarrow> string list \<Rightarrow> error + tableJoin list"
where
  "generateTableJoins ad reg mi fieldExprs =
     (let curTJ = rootJoin ad mi fieldExprs in
      case joinsLoop ad reg mi curTJ (modelTableName mi) fieldExprs of
        Inl err \<Rightarrow> Inl err
      | Inr js \<Rightarrow> Inr (curTJ # js))"

section \<open>The FROM clause\<close>

text \<open>\<open>fmt.Sprintf("%d", n)\<close> for a natural number: its decimal digits.\<close>

definition digitChar :: "nat \<Rightarrow> char" where
  "digitChar d = char_of (48 + d)"

function showNat :: "nat \<Rightarrow> string" where
  "showNat n = (if n < 10 then [digitChar n] else showNat (n div 10) @ [digitChar (n mod 10)])"
  by pat_completeness auto
termination
  by (relation "measure id") auto

declare showNat.simps [simp del]

text \<open>
  \<open>Query.tablesSQL\<close>. The state of its two nested loops is \<open>res\<close>, \<open>aliasIndex\<close> and
  \<open>joinsMap\<close>; \<open>addJoins\<close> is the inner loop over the joins of one expression, \<open>tablesLoop\<close>
  the outer loop over the expressions. A panic of \<open>generateTableJoins\<close> ends the run.
\<close>

type_synonym tablesState = "string \<times> nat \<times> (string \<rightharpoonup> string)"

fun addJoins :: "deps \<Rightarrow> tablesState \<Rightarrow> tableJoin list \<Rightarrow> tablesState" where
  "addJoins ad st [] = st"
| "addJoins ad (res, aliasIndex, joinsMap) (j # js) =
     (if joinsMap (tjAlias j) = None then
        addJoins ad
          (res @ sqlString j, Suc aliasIndex,
           joinsMap(tjAlias j \<mapsto>
             (if aliasIndex = 0 then tjAlias j
              else quoteTableName ad (''T'' @ showNat aliasIndex))))
          js
      else addJoins ad (res, aliasIndex, joinsMap) js)"

fun tablesLoop ::
  "deps \<Rightarrow> registry \<Rightarrow> Model \<Rightarrow> tablesState \<Rightarrow> string list list \<Rightarrow> error + tablesState"
where
  "tablesLoop ad reg mi st [] = Inr st"
| "tablesLoop ad reg mi st (f # fs) =
     (case generateTableJoins ad reg mi f of
        Inl err \<Rightarrow> Inl err
      | Inr tJoins \<Rightarrow> tablesLoop ad reg mi (addJoins ad st tJoins) fs)"

definition tablesSQL ::
  "deps \<Rightarrow> registry \<Rightarrow> Model \<Rightarrow> string list list \<Rightarrow> error + string \<times> (string \<rightharpoonup> string)"
where
  "tablesSQL ad reg mi fExprs =
     (case tablesLoop ad reg mi ([], 0, Map.empty) fExprs of
        Inl err \<Rightarrow> Inl err
      | Inr (res, aliasIndex, joinsMap) \<Rightarrow> Inr (res, joinsMap))"

text \<open>
  For the statements about the FROM clause: the joins of a list that \<open>addJoins\<close> writes
  into \<open>res\<close>, given the aliases already in \<open>joinsMap\<close>, and the alias that the join
  number \<open>i\<close> of a query receives.
\<close>

fun kept :: "string set \<Rightarrow> tableJoin list \<Rightarrow> tableJoin list" where
  "kept S [] = []"
| "kept S (j # js) =
     (if tjAlias j \<in> S then kept S js else j # kept (insert (tjAlias j) S) js)"

definition synth :: "deps \<Rightarrow> nat \<Rightarrow> string \<Rightarrow> string" where
  "synth ad i a = (if i = 0 then a else quoteTableName ad (''T'' @ showNat i))"

section \<open>The WHERE clause\<close>

text \<open>
  \<open>Query.joinedFieldExpression\<close>: the column of the last join of the expressions,
  with its alias when \<open>withAlias\<close> is given and true.
\<close>

fun joinStrings :: "string \<Rightarrow> string list \<Rightarrow> string" where
  "joinStrings sep [] = []"
| "joinStrings sep [x] = x"
| "joinStrings sep (x # y # ys) = x @ sep @ joinStrings sep (y # ys)"

definition joinedFieldExpression ::
  "deps \<Rightarrow> registry \<Rightarrow> Model \<Rightarrow> string list \<Rightarrow> bool \<Rightarrow> error + string"
where
  "joinedFieldExpression ad reg mi es withAlias =
     (case generateTableJoins ad reg mi es of
        Inl err \<Rightarrow> Inl err
      | Inr joins \<Rightarrow>
          let lastJoin = last joins in
          if withAlias
          then Inr (tjAlias lastJoin @ ''.'' @ expr lastJoin @ '' AS '' @ joinStrings (sqlSep ad) es)
          else Inr (tjAlias lastJoin @ ''.'' @ expr lastJoin))"

text \<open>
  \<open>Query.predicateSQLClause\<close> and \<open>Query.conditionSQLClause\<close>, for the query of model
  \<open>mi\<close>; \<open>conditionLoop\<close> is the loop of \<open>conditionSQLClause\<close> over the predicates, with
  its variables \<open>first\<close>, \<open>sql\<close> and \<open>args\<close>.
\<close>

fun predicateSQLClause ::
      "deps \<Rightarrow> registry \<Rightarrow> Model \<Rightarrow> predicate \<Rightarrow> error + string \<times> val list"
  and conditionSQLClause ::
      "deps \<Rightarrow> registry \<Rightarrow> Model \<Rightarrow> predicate list \<Rightarrow> error + string \<times> val list"
  and conditionLoop ::
      "deps \<Rightarrow> registry \<Rightarrow> Model \<Rightarrow> bool \<Rightarrow> string \<Rightarrow> val list \<Rightarrow> predicate list
        \<Rightarrow> error + string \<times> val list"
where
  "predicateSQLClause ad reg mi (Predicate es oper a c isOr' isNot' isCond') =
     (if isCond' then conditionSQLClause ad reg mi c
      else
        case jsonizeExpr ad mi es of
          Inl err \<Rightarrow> Inl err
        | Inr es' \<Rightarrow>
           (case getRelatedFieldInfo ad mi es' of
              Inl err \<Rightarrow> Inl err
            | Inr fi \<Rightarrow>
               let a' = (if IsFKRelationType (fieldType fi) \<and> CastToInteger ad a = Some 0
                         then VNil else a)
               in
               (case joinedFieldExpression ad reg mi es' False of
                  Inl err \<Rightarrow> Inl err
                | Inr fld \<Rightarrow>
                   if a' = VNil then
                     (case oper of
                        Equals \<Rightarrow> Inr (fld @ '' IS NULL'', [])
                      | NotEquals \<Rightarrow> Inr (fld @ '' IS NOT NULL'', [])
                      | OtherOperator _ \<Rightarrow>
                          Inl (Panic ''Null argument can only be used with = and != operators''))
                   else
                     let (opSql, a'') = operatorSQL ad oper a' in
                     Inr (fld @ '' '' @ opSql, [a'']))))"
| "conditionSQLClause ad reg mi c =
     (if IsEmpty ad c then Inr ([], [])
      else conditionLoop ad reg mi True [] [] c)"
| "conditionLoop ad reg mi first sql args [] = Inr (sql, args)"
| "conditionLoop ad reg mi first sql args (p # ps) =
     (let op = (if isOr p then ''OR'' else ''AND'') @ (if isNot p then '' NOT'' else []) in
      case predicateSQLClause ad reg mi p of
        Inl err \<Rightarrow> Inl err
      | Inr (vSQL, vArgs) \<Rightarrow>
          let sql' =
            (if first then (if isNot p then ''NOT '' @ vSQL else vSQL)
             else if isCond p then ''('' @ sql @ '') '' @ op @ '' ('' @ vSQL @ '')''
             else sql @ '' '' @ op @ '' '' @ vSQL)
          in conditionLoop ad reg mi False sql' (args @ vArgs) ps)"

section \<open>Declaring a many-to-many field\<close>

text \<open>
  The part of \<open>Many2ManyField.DeclareField\<close> that names the link model of the field
  \<open>mf\<close> declared on the model named \<open>ownName\<close>, with \<open>relName\<close> the name of
  \<open>mf.RelationModel\<close>: the local variable \<open>m2mRelModName\<close>, or the panic when both
  endpoints have one name. \<open>sort\<close> is \<open>sort.Strings\<close>, the order of strings bytewise.
\<close>

record Many2ManyField =
  M2MLinkModelName :: string
  M2MOurField :: string
  M2MTheirField :: string

definition m2mRelModName :: "Many2ManyField \<Rightarrow> string \<Rightarrow> string \<Rightarrow> error + string" where
  "m2mRelModName mf ownName relName =
     (let our = (if M2MOurField mf = [] then ownName else M2MOurField mf);
          their = (if M2MTheirField mf = [] then relName else M2MTheirField mf)
      in
      if our = their
      then Inl (Panic ''Many2many relation must have different M2MOurField and M2MTheirField'')
      else
        let modelNames = sort [our, their] in
        if M2MLinkModelName mf = []
        then Inr (modelNames ! 0 @ modelNames ! 1 @ ''Rel'')
        else Inr (M2MLinkModelName mf))"

section \<open>The record cache\<close>

text \<open>
  A \<open>cacheRef\<close> is a model (its name) and an id. A Go map that the code ranges over is an
  association list (\<open>data\<close>, and the link set of a link model in \<open>m2mLinks\<close>); Go leaves
  the order of a range over a map open, the order of the list stands for it, and the
  statements about a \<open>[]int64\<close> built in such a range speak of the set of its elements.
  A \<open>FieldMap\<close> is only looked up and updated: it is a map. The paths given to the cache
  are lists of expressions, as \<open>jsonizeExpr\<close> returns them for the split path.
\<close>

type_synonym cacheRef = "string \<times> int"

type_synonym FieldMap = "string \<rightharpoonup> val"

record cache =
  data :: "(cacheRef \<times> FieldMap) list"
  m2mLinks :: "string \<rightharpoonup> (int \<times> int) list"

definition newCache :: cache where
  "newCache = \<lparr> data = [], m2mLinks = Map.empty \<rparr>"

text \<open>\<open>strings.Compare\<close>, and the index of a link (a \<open>[2]int64\<close>) that holds our id.\<close>

definition stringsCompare :: "string \<Rightarrow> string \<Rightarrow> int" where
  "stringsCompare a b = (if a < b then - 1 else if a = b then 0 else 1)"

definition m2mIndex :: "Field \<Rightarrow> nat" where
  "m2mIndex fi = nat ((stringsCompare (m2mOurField fi) (m2mTheirField fi) + 1) div 2)"

definition linkAt :: "int \<times> int \<Rightarrow> nat \<Rightarrow> int" where
  "linkAt l i = (if i = 0 then fst l else snd l)"

definition newLink :: "nat \<Rightarrow> int \<Rightarrow> int \<Rightarrow> int \<times> int" where
  "newLink ourIndex i v = (if ourIndex = 0 then (i, v) else (v, i))"

definition removeM2MLinks :: "cache \<Rightarrow> Field \<Rightarrow> int \<Rightarrow> cache" where
  "removeM2MLinks c fi i =
     (case m2mLinks c (m2mRelModel fi) of
        None \<Rightarrow> c
      | Some links \<Rightarrow>
          c\<lparr>m2mLinks := (m2mLinks c)(m2mRelModel fi \<mapsto>
               filter (\<lambda>link. linkAt link (m2mIndex fi) \<noteq> i) links)\<rparr>)"

definition addM2MLink :: "cache \<Rightarrow> Field \<Rightarrow> int \<Rightarrow> int list \<Rightarrow> cache" where
  "addM2MLink c fi i values =
     (let links = (case m2mLinks c (m2mRelModel fi) of None \<Rightarrow> [] | Some l \<Rightarrow> l);
          ourIndex = m2mIndex fi
      in c\<lparr>m2mLinks := (m2mLinks c)(m2mRelModel fi \<mapsto>
             fold (\<lambda>v l. List.insert (newLink ourIndex i v) l) values links)\<rparr>)"

definition getM2MLinks :: "cache \<Rightarrow> Field \<Rightarrow> int \<Rightarrow> int list" where
  "getM2MLinks c fi i =
     (case m2mLinks c (m2mRelModel fi) of
        None \<Rightarrow> []
      | Some links \<Rightarrow>
          let ourIndex = m2mIndex fi; theirIndex = (ourIndex + 1) mod 2 in
          map (\<lambda>link. linkAt link theirIndex) (filter (\<lambda>link. linkAt link ourIndex = i) links))"

text \<open>\<open>c.data[ref][k]\<close> with its \<open>ok\<close>, \<open>c.data[ref][k] = v\<close> and \<open>delete(c.data[ref], k)\<close>.\<close>

definition lookupEntry :: "cache \<Rightarrow> cacheRef \<Rightarrow> string \<Rightarrow> val option" where
  "lookupEntry c ref k = (case map_of (data c) ref of None \<Rightarrow> None | Some fm \<Rightarrow> fm k)"

definition setEntry :: "cache \<Rightarrow> cacheRef \<Rightarrow> string \<Rightarrow> val \<Rightarrow> error + cache" where
  "setEntry c ref k v =
     (case map_of (data c) ref of
        None \<Rightarrow> Inl (Panic ''assignment to entry in nil map'')
      | Some fm \<Rightarrow> Inr (c\<lparr>data := AList.update ref (fm(k \<mapsto> v)) (data c)\<rparr>))"

text \<open>The entry that \<open>updateEntryByRef\<close> makes for a \<open>ref\<close> that has none.\<close>

definition ensureEntry :: "cache \<Rightarrow> cacheRef \<Rightarrow> cache" where
  "ensureEntry c ref =
     (if map_of (data c) ref = None
      then c\<lparr>data := AList.update ref [''id'' \<mapsto> VInt (snd ref)] (data c)\<rparr>
      else c)"

definition delEntry :: "cache \<Rightarrow> cacheRef \<Rightarrow> string \<Rightarrow> cache" where
  "delEntry c ref k =
     (case map_of (data c) ref of
        None \<Rightarrow> c
      | Some fm \<Rightarrow> c\<lparr>data := AList.update ref (fm(k := None)) (data c)\<rparr>)"

text \<open>
  The body of \<open>cache.get\<close> once \<open>getRelatedRef\<close> has returned \<open>ref\<close> and \<open>fName\<close>.
  \<open>backRef\<close> is the test of the two loops over \<open>c.data\<close>.
\<close>

definition backRef :: "Field \<Rightarrow> cacheRef \<Rightarrow> cacheRef \<times> FieldMap \<Rightarrow> bool" where
  "backRef fi ref e =
     (Some (fst (fst e)) = relatedModel fi \<and> (snd e) (jsonReverseFK fi) = Some (VInt (snd ref)))"

definition getByRef :: "registry \<Rightarrow> cache \<Rightarrow> cacheRef \<Rightarrow> string \<Rightarrow> error + val" where
  "getByRef reg c ref fName =
     (case MustGet (modelFields (reg (fst ref))) fName of
        Inl err \<Rightarrow> Inl err
      | Inr fi \<Rightarrow>
          if fieldType fi = One2Many then
            Inr (VIds (map (\<lambda>e. snd (fst e)) (filter (backRef fi ref) (data c))))
          else if fieldType fi = Rev2One then
            (case filter (backRef fi ref) (data c) of
               [] \<Rightarrow> Inr VNil
             | e # _ \<Rightarrow> Inr (VInt (snd (fst e))))
          else if fieldType fi = Many2Many then
            Inr (VIds (getM2MLinks c fi (snd ref)))
          else
            Inr (case lookupEntry c ref fName of None \<Rightarrow> VNil | Some v \<Rightarrow> v))"

text \<open>
  Modelled from the spec: \<open>Model.getRelatedModelInfo\<close> is not in the sources. A path is
  "resolved by recursively following the first segment's cached foreign-key value to locate
  the referenced record's CacheRef" (spec 4.3): the model of that record is the related
  model of the first segment's field, and the model itself for a field with no relation.
\<close>

definition getRelatedModelInfo :: "registry \<Rightarrow> string \<Rightarrow> string \<Rightarrow> error + string" where
  "getRelatedModelInfo reg mi e =
     (case MustGet (modelFields (reg mi)) e of
        Inl err \<Rightarrow> Inl err
      | Inr fi \<Rightarrow> Inr (case relatedModel fi of None \<Rightarrow> mi | Some rm \<Rightarrow> rm))"

text \<open>
  \<open>cache.getRelatedRef\<close>. Its call of \<open>c.get\<close> on the first expression alone is
  \<open>getByRef\<close> on the record itself (lemma \<open>get_single\<close>). \<open>Inl (Err _)\<close> is the returned
  error.
\<close>

fun getRelatedRef ::
  "registry \<Rightarrow> cache \<Rightarrow> string \<Rightarrow> int \<Rightarrow> string list \<Rightarrow> error + cacheRef \<times> string"
where
  "getRelatedRef reg c mi i [] = Inl (Panic ''index out of range'')"
| "getRelatedRef reg c mi i [e] = Inr ((mi, i), e)"
| "getRelatedRef reg c mi i (e # e' # es) =
     (case getRelatedModelInfo reg mi e of
        Inl err \<Rightarrow> Inl err
      | Inr relMI \<Rightarrow>
         (case getByRef reg c (mi, i) e of
            Inl err \<Rightarrow> Inl err
          | Inr (VInt fkID) \<Rightarrow> getRelatedRef reg c relMI fkID (e' # es)
          | Inr _ \<Rightarrow> Inl (Err ''requested value not in cache'')))"

definition get :: "registry \<Rightarrow> cache \<Rightarrow> string \<Rightarrow> int \<Rightarrow> string list \<Rightarrow> error + val" where
  "get reg c mi i fieldName =
     (case getRelatedRef reg c mi i fieldName of
        Inl (Err _) \<Rightarrow> Inr VNil
      | Inl (Panic m) \<Rightarrow> Inl (Panic m)
      | Inr (ref, fName) \<Rightarrow> getByRef reg c ref fName)"

text \<open>\<open>cache.checkIfInCache\<close>: the loop over the field names, the loop over the ids.\<close>

fun checkFields :: "registry \<Rightarrow> cache \<Rightarrow> string \<Rightarrow> int \<Rightarrow> string list list \<Rightarrow> error + bool"
where
  "checkFields reg c mi i [] = Inr True"
| "checkFields reg c mi i (fName # rest) =
     (case getRelatedRef reg c mi i fName of
        Inl (Err _) \<Rightarrow> Inr False
      | Inl (Panic m) \<Rightarrow> Inl (Panic m)
      | Inr (ref, path) \<Rightarrow>
          if lookupEntry c ref path = None then Inr False
          else checkFields reg c mi i rest)"

fun checkIds :: "registry \<Rightarrow> cache \<Rightarrow> string \<Rightarrow> int list \<Rightarrow> string list list \<Rightarrow> error + bool"
where
  "checkIds reg c mi [] fieldNames = Inr True"
| "checkIds reg c mi (i # ids) fieldNames =
     (case checkFields reg c mi i fieldNames of
        Inl err \<Rightarrow> Inl err
      | Inr ok \<Rightarrow> if ok then checkIds reg c mi ids fieldNames else Inr False)"

definition checkIfInCache ::
  "registry \<Rightarrow> cache \<Rightarrow> string \<Rightarrow> int list \<Rightarrow> string list list \<Rightarrow> error + bool"
where
  "checkIfInCache reg c mi ids fieldNames =
     (if ids = [] then Inr False else checkIds reg c mi ids fieldNames)"

text \<open>
  A loop whose body updates the cache and whose returned error is dropped
  (\<open>c.updateEntry(...)\<close> as a statement): a panic ends it, \<open>None\<close> is a body that does
  not return.
\<close>

fun forEach ::
  "(cache \<Rightarrow> 'a \<Rightarrow> (error + cache) option) \<Rightarrow> cache \<Rightarrow> 'a list \<Rightarrow> (error + cache) option"
where
  "forEach f c [] = Some (Inr c)"
| "forEach f c (x # xs) =
     (case f c x of
        None \<Rightarrow> None
      | Some (Inl (Panic m)) \<Rightarrow> Some (Inl (Panic m))
      | Some (Inl (Err _)) \<Rightarrow> forEach f c xs
      | Some (Inr c') \<Rightarrow> forEach f c' xs)"

text \<open>
  \<open>cache.updateEntryByRef\<close> and \<open>cache.updateEntry\<close>. Writing a one-to-many or a
  reverse one-to-one field calls \<open>updateEntry\<close> on the reverse field of the related
  records, which calls \<open>updateEntryByRef\<close> again; where that field is again a reverse
  one-to-one field the calls need not end. The first argument bounds the depth of the
  calls: \<open>None\<close> is a run that needs more. \<open>Some (Inl (Panic _))\<close> is a panic,
  \<open>Some (Inl (Err _))\<close> the error that \<open>updateEntry\<close> returns, the cache unchanged.
\<close>

fun updateEntryByRef ::
      "nat \<Rightarrow> registry \<Rightarrow> cache \<Rightarrow> cacheRef \<Rightarrow> string \<Rightarrow> val \<Rightarrow> (error + cache) option"
  and updateEntry ::
      "nat \<Rightarrow> registry \<Rightarrow> cache \<Rightarrow> string \<Rightarrow> int \<Rightarrow> string list \<Rightarrow> val \<Rightarrow> (error + cache) option"
where
  "updateEntryByRef 0 reg c ref jsonName v = None"
| "updateEntryByRef (Suc n) reg c ref jsonName v =
     (let c1 = ensureEntry c ref in
      case MustGet (modelFields (reg (fst ref))) jsonName of
        Inl err \<Rightarrow> Some (Inl err)
      | Inr fi \<Rightarrow>
          if fieldType fi = One2Many then
            (case v of
               VIds ids \<Rightarrow>
                 (case relatedModel fi of
                    None \<Rightarrow>
                      if ids = [] then Some (setEntry c1 ref jsonName (VBool True))
                      else Some (Inl (Panic ''nil pointer dereference''))
                  | Some rm \<Rightarrow>
                     (case forEach (\<lambda>c' i. updateEntry n reg c' rm i [jsonReverseFK fi]
                                              (VInt (snd ref))) c1 ids of
                        None \<Rightarrow> None
                      | Some (Inl err) \<Rightarrow> Some (Inl err)
                      | Some (Inr c2) \<Rightarrow> Some (setEntry c2 ref jsonName (VBool True))))
             | _ \<Rightarrow> Some (Inl (Panic ''interface conversion'')))
          else if fieldType fi = Rev2One then
            (case v of
               VInt i \<Rightarrow>
                 (case relatedModel fi of
                    None \<Rightarrow> Some (Inl (Panic ''nil pointer dereference''))
                  | Some rm \<Rightarrow>
                     (case updateEntry n reg c1 rm i [jsonReverseFK fi] (VInt (snd ref)) of
                        None \<Rightarrow> None
                      | Some (Inl (Panic m)) \<Rightarrow> Some (Inl (Panic m))
                      | Some (Inl (Err _)) \<Rightarrow> Some (setEntry c1 ref jsonName (VBool True))
                      | Some (Inr c2) \<Rightarrow> Some (setEntry c2 ref jsonName (VBool True))))
             | _ \<Rightarrow> Some (Inl (Panic ''interface conversion'')))
          else if fieldType fi = Many2Many then
            (case v of
               VIds ids \<Rightarrow>
                 Some (setEntry (addM2MLink (removeM2MLinks c1 fi (snd ref)) fi (snd ref) ids)
                         ref jsonName (VBool True))
             | _ \<Rightarrow> Some (Inl (Panic ''interface conversion'')))
          else Some (setEntry c1 ref jsonName v))"
| "updateEntry n reg c mi i fieldName v =
     (case getRelatedRef reg c mi i fieldName of
        Inl err \<Rightarrow> Some (Inl err)
      | Inr (ref, fName) \<Rightarrow> updateEntryByRef n reg c ref fName v)"

text \<open>
  \<open>cache.addRecord\<close>; the \<open>FieldMap\<close> is the list of its paths (each already split into
  its expressions) with their values, in the order of \<open>fMap.Keys()\<close>.
\<close>

definition addRecord ::
  "nat \<Rightarrow> registry \<Rightarrow> cache \<Rightarrow> string \<Rightarrow> int \<Rightarrow> (string list \<times> val) list \<Rightarrow> (error + cache) option"
where
  "addRecord n reg c mi i fMap =
     (let maxLen = foldr max (map (\<lambda>pv. length (fst pv)) fMap) 0;
          ordered = concat (map (\<lambda>l. filter (\<lambda>pv. length (fst pv) = l) fMap) [0 ..< Suc maxLen])
      in forEach (\<lambda>c' pv. updateEntry n reg c' mi i (fst pv) (snd pv)) c ordered)"

definition invalidateRecord :: "registry \<Rightarrow> cache \<Rightarrow> string \<Rightarrow> int \<Rightarrow> cache" where
  "invalidateRecord reg c mi i =
     fold (\<lambda>fi c'. if fieldType fi = Many2Many then removeM2MLinks c' fi i else c')
       (modelFields (reg mi))
       (c\<lparr>data := AList.delete (mi, i) (data c)\<rparr>)"

text \<open>
  \<open>cache.removeEntry\<close>. It deletes the key \<open>fieldName\<close> as it is given and looks
  the same string up as a field: for a path of several expressions that string, with its
  separators, names no field and \<open>MustGet\<close> panics.
\<close>

definition removeEntry ::
  "registry \<Rightarrow> cache \<Rightarrow> string \<Rightarrow> int \<Rightarrow> string list \<Rightarrow> error + cache"
where
  "removeEntry reg c mi i fieldName =
     (case checkIfInCache reg c mi [i] [fieldName] of
        Inl err \<Rightarrow> Inl err
      | Inr ok \<Rightarrow>
          if \<not> ok then Inr c
          else
            (case fieldName of
               [f] \<Rightarrow>
                 (let c1 = delEntry c (mi, i) f in
                  case MustGet (modelFields (reg mi)) f of
                    Inl err \<Rightarrow> Inl err
                  | Inr fi \<Rightarrow>
                      if fieldType fi = Many2Many then Inr (removeM2MLinks c1 fi i)
                      else Inr c1)
             | _ \<Rightarrow> Inl (Panic ''Unknown field in model'')))"

section \<open>Computed fields\<close>

text \<open>
  The permissions of package \<open>security\<close>: \<open>Read = 1 << Permission(iota)\<close> and the
  constants that follow it, on \<open>uint8\<close>.
\<close>

type_synonym Permission = "8 word"

definition Read :: Permission where
  "Read = push_bit 0 1"

definition Write :: Permission where
  "Write = push_bit 1 1"

definition Unlink :: Permission where
  "Unlink = push_bit 2 1"

definition All :: Permission where
  "All = or Read (or Write Unlink)"

text \<open>
  A record collection: its model, its ids and the user of its environment. The cache of the
  environment is passed along with it. What a method call does is outside the sources;
  the calls are recorded as events, in their order.
\<close>

record RecordCollection =
  rcModel :: string
  rcIds :: "int list"
  rcUid :: int

datatype event =
    ComputeCalled string "int list"
  | WriteCalled int "(string \<times> val) list"
  | InverseCalled string val

text \<open>
  What \<open>computeFieldValues\<close> calls that is not in the sources: the permission oracle
  \<open>checkFieldPermission\<close>, and \<open>rc.Call(fInfo.compute).(FieldMapper).FieldMap()\<close>, the
  compute method run on the record collection, which returns its values in the order of the
  range over them and may change the cache.
\<close>

record computeOps =
  checkFieldPermission :: "Field \<Rightarrow> int \<Rightarrow> Permission \<Rightarrow> bool"
  callCompute :: "string \<Rightarrow> RecordCollection \<Rightarrow> cache \<Rightarrow> (string \<times> val) list \<times> cache"

type_synonym computeState = "FieldMap \<times> cache \<times> event list"

text \<open>
  The inner loop of \<open>computeFieldValues\<close> over \<open>newParams\<close>, for the field \<open>fInfo\<close> of
  the record \<open>i\<close>. \<open>key.json\<close> on a \<open>key\<close> that \<open>Get\<close> did not find is a nil dereference.
  The path that \<open>updateEntry\<close> resolves from \<open>fInfo.name\<close> is the json name of the field.
\<close>

fun mergeParams ::
  "nat \<Rightarrow> registry \<Rightarrow> string \<Rightarrow> int \<Rightarrow> Field \<Rightarrow> FieldMap \<times> cache \<Rightarrow> (string \<times> val) list
    \<Rightarrow> (error + FieldMap \<times> cache) option"
where
  "mergeParams n reg mi i fInfo pc [] = Some (Inr pc)"
| "mergeParams n reg mi i fInfo (params, c) ((k, v) # rest) =
     (case fieldsGet (modelFields (reg mi)) k of
        None \<Rightarrow> Some (Inl (Panic ''nil pointer dereference''))
      | Some key \<Rightarrow>
         (case updateEntry n reg c mi i [json fInfo] v of
            None \<Rightarrow> None
          | Some (Inl (Panic m)) \<Rightarrow> Some (Inl (Panic m))
          | Some (Inl (Err _)) \<Rightarrow> mergeParams n reg mi i fInfo (params(json key \<mapsto> v), c) rest
          | Some (Inr c') \<Rightarrow> mergeParams n reg mi i fInfo (params(json key \<mapsto> v), c') rest))"

text \<open>
  The loop of \<open>RecordCollection.computeFieldValues\<close> over the computed fields, for the
  one record \<open>i\<close> of the collection; the state is \<open>params\<close>, the cache and the events.
\<close>

fun computeLoop ::
  "computeOps \<Rightarrow> nat \<Rightarrow> registry \<Rightarrow> RecordCollection \<Rightarrow> int \<Rightarrow> computeState \<Rightarrow> Field list
    \<Rightarrow> (error + computeState) option"
where
  "computeLoop ops n reg rc i st [] = Some (Inr st)"
| "computeLoop ops n reg rc i (params, c, evs) (fInfo # rest) =
     (if \<not> checkFieldPermission ops fInfo (rcUid rc) Read
      then computeLoop ops n reg rc i (params, c, evs) rest
      else if params (name fInfo) \<noteq> None
      then computeLoop ops n reg rc i (params, c, evs) rest
      else
        case checkIfInCache reg c (rcModel rc) (rcIds rc) [[json fInfo]] of
          Inl err \<Rightarrow> Some (Inl err)
        | Inr inCache \<Rightarrow>
            if inCache then
              (case get reg c (rcModel rc) i [json fInfo] of
                 Inl err \<Rightarrow> Some (Inl err)
               | Inr v \<Rightarrow> computeLoop ops n reg rc i (params(json fInfo \<mapsto> v), c, evs) rest)
            else
              (let (newParams, c1) = callCompute ops (compute fInfo) rc c;
                   evs1 = evs @ [ComputeCalled (compute fInfo) (rcIds rc)]
               in
               case mergeParams n reg (rcModel rc) i fInfo (params, c1) newParams of
                 None \<Rightarrow> None
               | Some (Inl err) \<Rightarrow> Some (Inl err)
               | Some (Inr (params', c2)) \<Rightarrow> computeLoop ops n reg rc i (params', c2, evs1) rest))"

text \<open>
  \<open>RecordCollection.computeFieldValues\<close>, given the fields that \<open>getComputedFields\<close>
  returns; \<open>rc.EnsureOne()\<close> panics unless the collection has one record.
\<close>

definition computeFieldValues ::
  "computeOps \<Rightarrow> nat \<Rightarrow> registry \<Rightarrow> RecordCollection \<Rightarrow> computeState \<Rightarrow> Field list
    \<Rightarrow> (error + computeState) option"
where
  "computeFieldValues ops n reg rc st computedFields =
     (case rcIds rc of
        [i] \<Rightarrow> computeLoop ops n reg rc i st computedFields
      | _ \<Rightarrow> Some (Inl (Panic ''Expected singleton'')))"

text \<open>
  Modelled from the spec: \<open>RecordCollection.Equals\<close> is not in the sources. "A
  relation-typed value compares by set-equality of the underlying id collection, not by
  reference equality" (spec 4.4).
\<close>

definition Equals' :: "int list \<Rightarrow> int list \<Rightarrow> bool" where
  "Equals' ids ids' = (set ids = set ids')"

text \<open>
  The loop of \<open>updateStoredFields\<close> over \<open>vals\<close> that sets \<open>doUpdate\<close>, for a record whose
  \<open>rec.Get\<close> is \<open>recGet\<close>; \<open>v.(RecordSet)\<close> panics on a value that is no record set.
\<close>

fun valuesChanged :: "(string \<Rightarrow> val) \<Rightarrow> (string \<times> val) list \<Rightarrow> error + bool" where
  "valuesChanged recGet [] = Inr False"
| "valuesChanged recGet ((f, v) # rest) =
     (if f = ''write_date'' then valuesChanged recGet rest
      else
        case recGet f of
          VRecordSet m ids \<Rightarrow>
            (case v of
               VRecordSet m' ids' \<Rightarrow>
                 if \<not> Equals' ids ids' then Inr True else valuesChanged recGet rest
             | _ \<Rightarrow> Inl (Panic ''interface conversion''))
        | cur \<Rightarrow> if cur \<noteq> v then Inr True else valuesChanged recGet rest)"

text \<open>
  What \<open>updateStoredFields\<close> calls on a record, on a state \<open>'s\<close> of the environment:
  \<open>rec.Call(computeMethod)\<close> with \<open>FieldMap(fieldsToReset...)\<close> on its result, \<open>rec.Get\<close>,
  and \<open>Write\<close> called with the context \<open>doxa_force_compute_write\<close>.
\<close>

record 's storedOps =
  computeVals :: "'s \<Rightarrow> string \<Rightarrow> string list \<Rightarrow> int \<Rightarrow> (string \<times> val) list \<times> 's"
  recGet :: "'s \<Rightarrow> int \<Rightarrow> string \<Rightarrow> val"
  forceWrite :: "'s \<Rightarrow> int \<Rightarrow> (string \<times> val) list \<Rightarrow> string list \<Rightarrow> 's"

text \<open>\<open>updateStoredFields\<close>: the loop over the records, with the events of its calls.\<close>

fun updateStoredFields ::
  "'s storedOps \<Rightarrow> 's \<times> event list \<Rightarrow> int list \<Rightarrow> string \<Rightarrow> string list \<Rightarrow> error + 's \<times> event list"
where
  "updateStoredFields ops st [] computeMethod fieldsToReset = Inr st"
| "updateStoredFields ops (s, evs) (r # recs) computeMethod fieldsToReset =
     (let (vals, s1) = computeVals ops s computeMethod fieldsToReset r;
          evs1 = evs @ [ComputeCalled computeMethod [r]]
      in
      case valuesChanged (recGet ops s1 r) vals of
        Inl err \<Rightarrow> Inl err
      | Inr doUpdate \<Rightarrow>
          if doUpdate
          then updateStoredFields ops
                 (forceWrite ops s1 r vals fieldsToReset, evs1 @ [WriteCalled r vals])
                 recs computeMethod fieldsToReset
          else updateStoredFields ops (s1, evs1) recs computeMethod fieldsToReset)"

text \<open>
  Modelled from the spec: \<open>Field.isComputedField\<close> is not in the sources. A computed
  field is one that has a compute function (spec 3).
\<close>

definition isComputedField :: "Field \<Rightarrow> bool" where
  "isComputedField fi = (compute fi \<noteq> [])"

text \<open>
  What \<open>processInverseMethods\<close> asks that is not in the sources: the context of the
  environment (\<open>HasKey\<close>, \<open>GetBool\<close>), \<open>rc.model.getRelatedFieldInfo\<close>,
  \<open>fMap.Get(fi.json, fi.model)\<close> (\<open>None\<close> where it does not exist) and
  \<open>typesutils.IsZero\<close>.
\<close>

record inverseOps =
  HasKey :: "string \<Rightarrow> bool"
  GetBool :: "string \<Rightarrow> bool"
  relatedFieldInfo :: "string \<Rightarrow> error + Field"
  fMapGet :: "(string \<times> val) list \<Rightarrow> Field \<Rightarrow> val option"
  IsZero :: "val \<Rightarrow> bool"

text \<open>
  \<open>RecordCollection.processInverseMethods\<close>: \<open>inverseLoop\<close> is its loop over the field
  names of \<open>fMap\<close> that remain, with the events so far; it returns the events and the
  panic that ended it, if any.
\<close>

fun inverseLoop ::
  "inverseOps \<Rightarrow> (string \<times> val) list \<Rightarrow> event list \<Rightarrow> string list \<Rightarrow> event list \<times> error option"
where
  "inverseLoop ops fMap evs [] = (evs, None)"
| "inverseLoop ops fMap evs (fieldName # rest) =
     (case relatedFieldInfo ops fieldName of
        Inl err \<Rightarrow> (evs, Some err)
      | Inr fi \<Rightarrow>
          if \<not> isComputedField fi \<or> HasKey ops ''doxa_force_compute_write''
          then inverseLoop ops fMap evs rest
          else
            (case fMapGet ops fMap fi of
               None \<Rightarrow> inverseLoop ops fMap evs rest
             | Some v \<Rightarrow>
                 if inverse' fi = [] then
                   (if GetBool ops ''doxa_allow_without_inverse''
                    then inverseLoop ops fMap evs rest
                    else if IsZero ops v
                    then inverseLoop ops fMap evs rest
                    else (evs, Some (Panic ''Trying to write a computed field without inverse method'')))
                 else inverseLoop ops fMap (evs @ [InverseCalled (inverse' fi) v]) rest))"

definition processInverseMethods ::
  "inverseOps \<Rightarrow> (string \<times> val) list \<Rightarrow> event list \<times> error option"
where
  "processInverseMethods ops fMap = inverseLoop ops fMap [] (map fst fMap)"

section \<open>A schema to run the model on\<close>

text \<open>
  An invoice with its lines (one-to-many, the reverse key required), posts and tags
  (many-to-many through \<open>PostTagRel\<close>), and collaborators in the way of the PostgreSQL
  adapter: names quoted with double quotes, \<open>__\<close> between the tables of an alias.
\<close>

definition plainField :: "string \<Rightarrow> string \<Rightarrow> fieldtype \<Rightarrow> Field" where
  "plainField n j t =
     \<lparr> name = n, json = j, fieldType = t, required = False, stored = True,
       compute = [], inverse' = [], relatedModel = None, reverseFK = [], jsonReverseFK = [],
       m2mRelModel = [], m2mOurField = [], m2mTheirField = [] \<rparr>"

definition linesField :: Field where
  "linesField = (plainField ''Lines'' ''lines'' One2Many)
     \<lparr> relatedModel := Some ''Line'', reverseFK := ''Invoice'', jsonReverseFK := ''invoice_id'' \<rparr>"

definition totalField :: Field where
  "totalField = (plainField ''Total'' ''total'' Float) \<lparr> compute := ''ComputeTotal'' \<rparr>"

definition taxField :: Field where
  "taxField = (plainField ''Tax'' ''tax'' Float)
     \<lparr> compute := ''ComputeTotal'', stored := False \<rparr>"

definition noteField :: Field where
  "noteField = (plainField ''Note'' ''note'' Char')
     \<lparr> compute := ''ComputeNote'', inverse' := ''InverseNote'', stored := False \<rparr>"

definition invoiceModel :: Model where
  "invoiceModel =
     \<lparr> modelName = ''Invoice'', modelTableName = ''invoice'',
       modelFields = [plainField ''ID'' ''id'' Integer, linesField, totalField, taxField,
                      noteField] \<rparr>"

definition invoiceField :: Field where
  "invoiceField = (plainField ''Invoice'' ''invoice_id'' Many2One)
     \<lparr> relatedModel := Some ''Invoice'', required := True \<rparr>"

definition lineModel :: Model where
  "lineModel =
     \<lparr> modelName = ''Line'', modelTableName = ''line'',
       modelFields = [plainField ''ID'' ''id'' Integer, invoiceField,
                      plainField ''Amount'' ''amount'' Float] \<rparr>"

definition tagsField :: Field where
  "tagsField = (plainField ''Tags'' ''tags'' Many2Many)
     \<lparr> relatedModel := Some ''Tag'', m2mRelModel := ''PostTagRel'',
       m2mOurField := ''Post'', m2mTheirField := ''Tag'' \<rparr>"

definition postsField :: Field where
  "postsField = (plainField ''Posts'' ''posts'' Many2Many)
     \<lparr> relatedModel := Some ''Post'', m2mRelModel := ''PostTagRel'',
       m2mOurField := ''Tag'', m2mTheirField := ''Post'' \<rparr>"

definition postModel :: Model where
  "postModel =
     \<lparr> modelName = ''Post'', modelTableName = ''post'',
       modelFields = [plainField ''ID'' ''id'' Integer, plainField ''Title'' ''title'' Char',
                      tagsField] \<rparr>"

definition tagModel :: Model where
  "tagModel =
     \<lparr> modelName = ''Tag'', modelTableName = ''tag'',
       modelFields = [plainField ''ID'' ''id'' Integer, plainField ''Name'' ''name'' Char',
                      postsField] \<rparr>"

definition postTagRelModel :: Model where
  "postTagRelModel =
     \<lparr> modelName = ''PostTagRel'', modelTableName = ''post_tag_rel'',
       modelFields = [plainField ''ID'' ''id'' Integer,
         (plainField ''Post'' ''post_id'' Many2One) \<lparr> relatedModel := Some ''Post'', required := True \<rparr>,
         (plainField ''Tag'' ''tag_id'' Many2One) \<lparr> relatedModel := Some ''Tag'', required := True \<rparr>] \<rparr>"

definition demoRegistry :: registry where
  "demoRegistry n =
     (if n = ''Invoice'' then invoiceModel
      else if n = ''Line'' then lineModel
      else if n = ''Post'' then postModel
      else if n = ''Tag'' then tagModel
      else postTagRelModel)"

definition pgDeps :: deps where
  "pgDeps =
     \<lparr> quoteTableName = (\<lambda>s. [CHR 0x22] @ s @ [CHR 0x22]),
       operatorSQL = (\<lambda>oper a. (''= ?'', a)),
       jsonizePath = (\<lambda>mi p. case fieldsGet (modelFields mi) p of None \<Rightarrow> p | Some f \<Rightarrow> json f),
       jsonizeExpr = (\<lambda>mi es. Inr es),
       getRelatedFieldInfo = (\<lambda>mi es. MustGet (modelFields mi) (last es)),
       CastToInteger = (\<lambda>v. case v of VInt n \<Rightarrow> Some n | _ \<Rightarrow> None),
       IsEmpty = (\<lambda>ps. ps = []),
       sqlSep = ''__'' \<rparr>"

section \<open>Notions for the statements about the cache\<close>

text \<open>
  The links of a link model in a cache (none where the model has no entry in
  \<open>m2mLinks\<close>), a field from the other endpoint of the same many-to-many relation, and
  the invariant of the entries of \<open>data\<close>.
\<close>

definition linksOf :: "cache \<Rightarrow> string \<Rightarrow> (int \<times> int) list" where
  "linksOf c r = (case m2mLinks c r of None \<Rightarrow> [] | Some l \<Rightarrow> l)"

definition paired :: "Field \<Rightarrow> Field \<Rightarrow> bool" where
  "paired f g \<longleftrightarrow>
     m2mRelModel g = m2mRelModel f \<and> m2mOurField g = m2mTheirField f \<and>
     m2mTheirField g = m2mOurField f \<and> m2mOurField f \<noteq> m2mTheirField f"

definition idInv :: "cache \<Rightarrow> bool" where
  "idInv c \<longleftrightarrow> (\<forall>e \<in> set (data c). (snd e) ''id'' = Some (VInt (snd (fst e))))"

text \<open>
  A cache state: line 5 of invoice 1 and the invoice itself are loaded, post 7 has tag 1.
\<close>

definition demoCache :: cache where
  "demoCache =
     \<lparr> data = [((''Line'', 5), [''id'' \<mapsto> VInt 5, ''invoice_id'' \<mapsto> VInt 1]),
               ((''Invoice'', 1), [''id'' \<mapsto> VInt 1, ''total'' \<mapsto> VInt 25])],
       m2mLinks = [''PostTagRel'' \<mapsto> [(7, 1)]] \<rparr>"

text \<open>
  For the invariant: the \<open>id\<close> of an entry (\<open>None\<close> without an entry, \<open>Some None\<close> for
  an entry without the key), a write that keeps it, a path whose write keeps it, and a
  schema in which \<open>id\<close> is no relation written through other records and no reverse key.
\<close>

definition entryId :: "cache \<Rightarrow> cacheRef \<Rightarrow> val option option" where
  "entryId c ref = map_option (\<lambda>fm. fm ''id'') (map_of (data c) ref)"

definition idSafe :: "cacheRef \<Rightarrow> string \<Rightarrow> val \<Rightarrow> bool" where
  "idSafe ref k v \<longleftrightarrow> (k = ''id'' \<longrightarrow> v = VInt (snd ref))"

definition idSafePath :: "int \<Rightarrow> string list \<Rightarrow> val \<Rightarrow> bool" where
  "idSafePath i path v \<longleftrightarrow> (last path = ''id'' \<longrightarrow> path = [''id''] \<and> v = VInt i)"

definition idSchema :: "registry \<Rightarrow> bool" where
  "idSchema reg \<longleftrightarrow>
     (\<forall>m. \<forall>fi \<in> set (modelFields (reg m)).
        jsonReverseFK fi \<noteq> ''id'' \<and>
        (MustGet (modelFields (reg m)) ''id'' = Inr fi \<longrightarrow>
           fieldType fi \<noteq> One2Many \<and> fieldType fi \<noteq> Rev2One \<and> fieldType fi \<noteq> Many2Many))"

section \<open>Notions for the statements about computed fields\<close>

text \<open>
  Whether \<open>updateStoredFields\<close> takes a computed value for changed: a record set
  against a record set by the set of the ids, any other current value by equality.
\<close>

definition fieldChanged :: "val \<Rightarrow> val \<Rightarrow> bool" where
  "fieldChanged cur v =
     (case cur of
        VRecordSet m ids \<Rightarrow> (case v of VRecordSet m' ids' \<Rightarrow> set ids \<noteq> set ids' | _ \<Rightarrow> True)
      | _ \<Rightarrow> cur \<noteq> v)"

text \<open>The records of the compute calls and of the writes among events.\<close>

fun computedRecs :: "event list \<Rightarrow> int list" where
  "computedRecs [] = []"
| "computedRecs (ComputeCalled m rs # evs) = rs @ computedRecs evs"
| "computedRecs (_ # evs) = computedRecs evs"

fun writtenRecs :: "event list \<Rightarrow> int list" where
  "writtenRecs [] = []"
| "writtenRecs (WriteCalled r vals # evs) = r # writtenRecs evs"
| "writtenRecs (_ # evs) = writtenRecs evs"

text \<open>The value of a key in the result of \<open>computeFieldValues\<close>, and its events.\<close>

definition resultParam :: "(error + computeState) option \<Rightarrow> string \<Rightarrow> val option" where
  "resultParam r k = (case r of Some (Inr (params, c, evs)) \<Rightarrow> params k | _ \<Rightarrow> None)"

definition resultEvents :: "(error + computeState) option \<Rightarrow> event list" where
  "resultEvents r = (case r of Some (Inr (params, c, evs)) \<Rightarrow> evs | _ \<Rightarrow> [])"

text \<open>
  Collaborators to run the model with: records of invoices as a function from id and
  field to value, a compute method that returns the total, the tax, the lines and the
  date of the write; an oracle that denies the field \<open>Tax\<close>; a context with or without
  \<open>doxa_force_compute_write\<close>.
\<close>

definition demoStore :: "int \<Rightarrow> string \<Rightarrow> val" where
  "demoStore r f =
     (if f = ''total'' then (if r = 1 then VInt 25 else VInt 10)
      else if f = ''lines'' then (if r = 1 then VRecordSet ''Line'' [5, 6] else VRecordSet ''Line'' [])
      else if f = ''write_date'' then VStr ''yesterday''
      else VNil)"

definition demoStoredOps :: "(int \<Rightarrow> string \<Rightarrow> val) storedOps" where
  "demoStoredOps =
     \<lparr> computeVals = (\<lambda>s m fs r.
         ([(''total'', VInt 25), (''write_date'', VStr ''today''),
           (''lines'', if r = 1 then VRecordSet ''Line'' [6, 5, 6] else VRecordSet ''Line'' [])], s)),
       recGet = (\<lambda>s r f. s r f),
       forceWrite = (\<lambda>s r vals fs r' f.
         if r' = r then (case map_of vals f of None \<Rightarrow> s r' f | Some v \<Rightarrow> v) else s r' f) \<rparr>"

definition demoComputeOps :: computeOps where
  "demoComputeOps =
     \<lparr> checkFieldPermission = (\<lambda>f uid p. name f \<noteq> ''Tax''),
       callCompute = (\<lambda>m rc c. ([(''Total'', VInt 25), (''Tax'', VInt 5)], c)) \<rparr>"

definition demoRc :: RecordCollection where
  "demoRc = \<lparr> rcModel = ''Invoice'', rcIds = [1], rcUid = 2 \<rparr>"

definition demoInverseOps :: "bool \<Rightarrow> inverseOps" where
  "demoInverseOps forced =
     \<lparr> HasKey = (\<lambda>k. forced \<and> k = ''doxa_force_compute_write''),
       GetBool = (\<lambda>k. False),
       relatedFieldInfo = (\<lambda>n. MustGet (modelFields invoiceModel) n),
       fMapGet = (\<lambda>fMap fi. case map_of fMap (json fi) of
                                None \<Rightarrow> map_of fMap (name fi)
                              | Some v \<Rightarrow> Some v),
       IsZero = (\<lambda>v. v = VNil \<or> v = VInt 0 \<or> v = VStr [] \<or> v = VBool False) \<rparr>"

section \<open>Verified properties\<close>

subsection \<open>The FROM clause\<close>

lemma kept_aliases: "tjAlias ` set (kept S js) = tjAlias ` set js - S"
  by (induction js arbitrary: S) auto

lemma kept_distinct: "distinct (map tjAlias (kept S js))"
proof (induction js arbitrary: S)
  case Nil show ?case by simp
next
  case (Cons j js)
  have "tjAlias j \<notin> tjAlias ` set (kept (insert (tjAlias j) S) js)"
    by (simp add: kept_aliases)
  with Cons show ?case by simp
qed

lemma kept_subset: "set (kept S js) \<subseteq> set js"
  by (induction js arbitrary: S) auto

lemma kept_disjoint: "tjAlias j \<in> S \<Longrightarrow> j \<notin> set (kept S js)"
  using kept_aliases [of S js] by blast

lemma addJoins_kept:
  "\<exists>jm'. addJoins ad (res, idx, jm) js =
      (res @ concat (map sqlString (kept (dom jm) js)), idx + length (kept (dom jm) js), jm')
    \<and> dom jm' = dom jm \<union> tjAlias ` set js
    \<and> (\<forall>a \<in> dom jm. jm' a = jm a)
    \<and> (\<forall>i < length (kept (dom jm) js).
          jm' (tjAlias (kept (dom jm) js ! i)) = Some (synth ad (idx + i) (tjAlias (kept (dom jm) js ! i))))"
proof (induction js arbitrary: res idx jm)
  case Nil
  show ?case by simp
next
  case (Cons j js)
  show ?case
  proof (cases "jm (tjAlias j)")
    case (Some v)
    then have d: "tjAlias j \<in> dom jm" by auto
    from Cons [of res idx jm] obtain jm' where
      "addJoins ad (res, idx, jm) js =
         (res @ concat (map sqlString (kept (dom jm) js)), idx + length (kept (dom jm) js), jm')"
      "dom jm' = dom jm \<union> tjAlias ` set js" "\<forall>a \<in> dom jm. jm' a = jm a"
      "\<forall>i < length (kept (dom jm) js).
          jm' (tjAlias (kept (dom jm) js ! i)) = Some (synth ad (idx + i) (tjAlias (kept (dom jm) js ! i)))"
      by blast
    then show ?thesis using Some d by (intro exI [of _ jm']) auto
  next
    case None
    define jm1 where "jm1 = jm(tjAlias j \<mapsto> synth ad idx (tjAlias j))"
    define K where "K = kept (dom jm1) js"
    have dj: "dom jm1 = insert (tjAlias j) (dom jm)" by (simp add: jm1_def)
    have nd: "tjAlias j \<notin> dom jm" using None by auto
    from Cons [of "res @ sqlString j" "Suc idx" jm1] obtain jm' where
      a: "addJoins ad (res @ sqlString j, Suc idx, jm1) js =
         ((res @ sqlString j) @ concat (map sqlString K), Suc idx + length K, jm')"
      and b: "dom jm' = dom jm1 \<union> tjAlias ` set js" and c: "\<forall>a \<in> dom jm1. jm' a = jm1 a"
      and d: "\<forall>i < length K. jm' (tjAlias (K ! i)) = Some (synth ad (Suc idx + i) (tjAlias (K ! i)))"
      unfolding K_def by blast
    have k: "kept (dom jm) (j # js) = j # K" using nd by (simp add: K_def dj)
    have 1: "addJoins ad (res, idx, jm) (j # js) =
      (res @ concat (map sqlString (kept (dom jm) (j # js))), idx + length (kept (dom jm) (j # js)), jm')"
      unfolding k using None a by (simp add: jm1_def synth_def)
    have 2: "dom jm' = dom jm \<union> tjAlias ` set (j # js)" using b dj by auto
    have 3: "\<forall>a \<in> dom jm. jm' a = jm a"
    proof
      fix a assume "a \<in> dom jm"
      then have "a \<noteq> tjAlias j" "a \<in> dom jm1" using nd dj by auto
      then show "jm' a = jm a" using c by (simp add: jm1_def)
    qed
    have 4: "\<forall>i < length (j # K). jm' (tjAlias ((j # K) ! i)) = Some (synth ad (idx + i) (tjAlias ((j # K) ! i)))"
    proof (intro allI impI)
      fix i assume i: "i < length (j # K)"
      show "jm' (tjAlias ((j # K) ! i)) = Some (synth ad (idx + i) (tjAlias ((j # K) ! i)))"
      proof (cases i)
        case 0
        have "jm' (tjAlias j) = jm1 (tjAlias j)" using c dj by simp
        then show ?thesis using 0 by (simp add: jm1_def)
      next
        case (Suc i')
        then show ?thesis using d i by simp
      qed
    qed
    show ?thesis using 1 2 3 4 unfolding k by blast
  qed
qed

lemma addJoins_append:
  "addJoins ad st (xs @ ys) = addJoins ad (addJoins ad st xs) ys"
proof (induction xs arbitrary: st)
  case Nil show ?case by simp
next
  case (Cons x xs)
  obtain res idx jm where st: "st = (res, idx, jm)" by (cases st)
  show ?case unfolding st using Cons by simp
qed

lemma addJoins_noop:
  "tjAlias ` set js \<subseteq> dom jm \<Longrightarrow> addJoins ad (res, idx, jm) js = (res, idx, jm)"
  by (induction js) auto

lemma tablesLoop_append:
  "tablesLoop ad reg mi st (fs @ gs) =
     (case tablesLoop ad reg mi st fs of Inl err \<Rightarrow> Inl err | Inr st' \<Rightarrow> tablesLoop ad reg mi st' gs)"
  by (induction fs arbitrary: st) (auto split: sum.splits)

lemma tablesLoop_flat:
  "tablesLoop ad reg mi st fs = Inr st' \<Longrightarrow>
     \<exists>jss. map (generateTableJoins ad reg mi) fs = map Inr jss \<and> st' = addJoins ad st (concat jss)"
proof (induction fs arbitrary: st)
  case Nil
  then show ?case by simp
next
  case (Cons f fs)
  from Cons.prems obtain js where js: "generateTableJoins ad reg mi f = Inr js"
    and rest: "tablesLoop ad reg mi (addJoins ad st js) fs = Inr st'"
    by (auto split: sum.splits)
  from Cons.IH [OF rest] obtain jss where
    "map (generateTableJoins ad reg mi) fs = map Inr jss" "st' = addJoins ad (addJoins ad st js) (concat jss)"
    by blast
  then have "map (generateTableJoins ad reg mi) (f # fs) = map Inr (js # jss)
      \<and> st' = addJoins ad st (concat (js # jss))"
    using js by (simp add: addJoins_append)
  then show ?case by blast
qed

lemma tablesLoop_returns:
  "list_all (\<lambda>f. \<not> isl (generateTableJoins ad reg mi f)) fs \<Longrightarrow> \<not> isl (tablesLoop ad reg mi st fs)"
proof (induction fs arbitrary: st)
  case Nil
  show ?case by simp
next
  case (Cons f fs)
  from Cons.prems obtain js where "generateTableJoins ad reg mi f = Inr js"
    by (cases "generateTableJoins ad reg mi f") auto
  then show ?case using Cons by simp
qed

lemma tablesSQL_returns:
  "list_all (\<lambda>f. \<not> isl (generateTableJoins ad reg mi f)) fs \<Longrightarrow> \<not> isl (tablesSQL ad reg mi fs)"
  using tablesLoop_returns [of ad reg mi fs "([], 0, Map.empty)"]
  by (auto simp: tablesSQL_def split: sum.splits)

lemma generateTableJoins_root:
  "generateTableJoins ad reg mi f = Inr js \<Longrightarrow> \<exists>js'. js = rootJoin ad mi f # js'"
  by (auto simp: generateTableJoins_def Let_def split: sum.splits)



subsection \<open>Joins of the relation fields\<close>

lemma sort_pair: "sort [a, b :: string] = (if a \<le> b then [a, b] else [b, a])"
  by simp

lemma m2mRelModName_swap:
  "m2mRelModName mf a b =
   m2mRelModName (mf\<lparr>M2MOurField := M2MTheirField mf, M2MTheirField := M2MOurField mf\<rparr>) b a"
proof -
  define our where "our = (if M2MOurField mf = [] then a else M2MOurField mf)"
  define their where "their = (if M2MTheirField mf = [] then b else M2MTheirField mf)"
  have s: "sort [our, their] = sort [their, our]"
    by (auto simp: sort_pair)
  have l: "m2mRelModName mf a b =
      (if our = their
       then Inl (Panic ''Many2many relation must have different M2MOurField and M2MTheirField'')
       else if M2MLinkModelName mf = []
       then Inr (sort [our, their] ! 0 @ sort [our, their] ! 1 @ ''Rel'')
       else Inr (M2MLinkModelName mf))"
    unfolding m2mRelModName_def our_def their_def Let_def by simp
  have r: "m2mRelModName (mf\<lparr>M2MOurField := M2MTheirField mf, M2MTheirField := M2MOurField mf\<rparr>) b a =
      (if their = our
       then Inl (Panic ''Many2many relation must have different M2MOurField and M2MTheirField'')
       else if M2MLinkModelName mf = []
       then Inr (sort [their, our] ! 0 @ sort [their, our] ! 1 @ ''Rel'')
       else Inr (M2MLinkModelName mf))"
    unfolding m2mRelModName_def our_def their_def Let_def by simp
  show ?thesis unfolding l r s by auto
qed




text \<open>
  C5, as the code has it. At a one-to-many or reverse one-to-one segment the resolver appends
  one join of the related table and goes on from it: the column of the reverse key of the
  related table against \<open>id\<close> of the current join. The join is INNER exactly when the
  field of the segment itself is required; the reverse key's own \<open>required\<close> is not read.
\<close>

theorem one2many_join:
  assumes g: "fieldsGet (modelFields curMI) e = Some fi"
      and t: "fieldType fi = One2Many \<or> fieldType fi = Rev2One"
      and r: "relatedModel fi = Some rm"
  shows "\<exists>j. tableName j = quoteTableName ad (modelTableName (reg rm)) \<and>
            joined j \<and>
            field j = jsonizePath ad (reg rm) (reverseFK fi) \<and>
            otherTable j = Some curTJ \<and>
            otherField j = ''id'' \<and>
            (innerJoin j \<longleftrightarrow> required fi) \<and>
            sqlString j =
              (if required fi then ''INNER '' else ''LEFT '') @ ''JOIN '' @
              tableName j @ '' '' @ tjAlias j @ '' ON '' @ tjAlias curTJ @ ''.id='' @
              tjAlias j @ ''.'' @ jsonizePath ad (reg rm) (reverseFK fi) @ '' '' \<and>
            joinsLoop ad reg curMI curTJ al (e # rest) =
              (case joinsLoop ad reg (reg rm) j (al @ sqlSep ad @ modelTableName (reg rm)) rest of
                 Inl err \<Rightarrow> Inl err
               | Inr js \<Rightarrow> Inr (j # js))"
proof -
  have nfk: "\<not> IsFKRelationType (fieldType fi)" and nm: "fieldType fi \<noteq> Many2Many"
    and n1: "fieldType fi \<noteq> Many2One" and n2: "fieldType fi \<noteq> One2One"
    using t by (auto simp: IsFKRelationType_def)
  define al2 where "al2 = al @ sqlSep ad @ modelTableName (reg rm)"
  define J where "J = TableJoin (quoteTableName ad (modelTableName (reg rm))) True (required fi)
       (jsonizePath ad (reg rm) (reverseFK fi)) (Some curTJ) ''id'' (quoteTableName ad al2)
       (if (case rest of [] \<Rightarrow> [] | e' # _ \<Rightarrow> e') = [] then ''id''
        else (case rest of [] \<Rightarrow> [] | e' # _ \<Rightarrow> e'))"
  have step: "joinsLoop ad reg curMI curTJ al (e # rest) =
      (case joinsLoop ad reg (reg rm) J al2 rest of Inl err \<Rightarrow> Inl err | Inr js \<Rightarrow> Inr (J # js))"
    unfolding J_def al2_def using g r nfk nm n1 n2 t by (simp add: Let_def)
  have sql: "sqlString J =
              (if required fi then ''INNER '' else ''LEFT '') @ ''JOIN '' @
              tableName J @ '' '' @ tjAlias J @ '' ON '' @ tjAlias curTJ @ ''.id='' @
              tjAlias J @ ''.'' @ jsonizePath ad (reg rm) (reverseFK fi) @ '' ''"
    by (simp add: sqlString_def J_def)
  have props: "tableName J = quoteTableName ad (modelTableName (reg rm))" "joined J"
      "field J = jsonizePath ad (reg rm) (reverseFK fi)" "otherTable J = Some curTJ"
      "otherField J = ''id''" "innerJoin J \<longleftrightarrow> required fi"
    by (simp_all add: J_def)
  from props sql step [unfolded al2_def] show ?thesis by blast
qed

theorem one2many_join_witness:
  "map_sum id (map sqlString)
     (generateTableJoins pgDeps demoRegistry invoiceModel [''lines'', ''amount'']) =
     Inr [[CHR 0x22] @ ''invoice'' @ [CHR 0x22] @ '' '' @ [CHR 0x22] @ ''invoice'' @ [CHR 0x22] @ '' '',
          ''LEFT JOIN '' @ [CHR 0x22] @ ''line'' @ [CHR 0x22] @ '' '' @
            [CHR 0x22] @ ''invoice__line'' @ [CHR 0x22] @ '' ON '' @
            [CHR 0x22] @ ''invoice'' @ [CHR 0x22] @ ''.id='' @
            [CHR 0x22] @ ''invoice__line'' @ [CHR 0x22] @ ''.invoice_id '']
   \<and> (\<exists>j. (innerJoin j \<longleftrightarrow> required linesField) \<and>
          joinsLoop pgDeps demoRegistry invoiceModel
            (rootJoin pgDeps invoiceModel [''lines'', ''amount'']) ''invoice'' [''lines'', ''amount''] =
          Inr [j])"
proof -
  have g: "fieldsGet (modelFields invoiceModel) ''lines'' = Some linesField"
    by code_simp
  have t: "fieldType linesField = One2Many \<or> fieldType linesField = Rev2One"
    and r: "relatedModel linesField = Some ''Line''"
    by (simp_all add: linesField_def plainField_def)
  have rest: "joinsLoop pgDeps demoRegistry (demoRegistry ''Line'') j
      (''invoice'' @ sqlSep pgDeps @ modelTableName (demoRegistry ''Line'')) [''amount''] = Inr []" for j
    by (simp add: demoRegistry_def lineModel_def fieldsGet_def plainField_def invoiceField_def)
  from one2many_join [OF g t r, of pgDeps demoRegistry
      "rootJoin pgDeps invoiceModel [''lines'', ''amount'']" "''invoice''" "[''amount'']"]
  have "\<exists>j. (innerJoin j \<longleftrightarrow> required linesField) \<and>
          joinsLoop pgDeps demoRegistry invoiceModel
            (rootJoin pgDeps invoiceModel [''lines'', ''amount'']) ''invoice'' [''lines'', ''amount''] =
          Inr [j]"
    unfolding rest by auto
  moreover have "map_sum id (map sqlString)
     (generateTableJoins pgDeps demoRegistry invoiceModel [''lines'', ''amount'']) =
     Inr [[CHR 0x22] @ ''invoice'' @ [CHR 0x22] @ '' '' @ [CHR 0x22] @ ''invoice'' @ [CHR 0x22] @ '' '',
          ''LEFT JOIN '' @ [CHR 0x22] @ ''line'' @ [CHR 0x22] @ '' '' @
            [CHR 0x22] @ ''invoice__line'' @ [CHR 0x22] @ '' ON '' @
            [CHR 0x22] @ ''invoice'' @ [CHR 0x22] @ ''.id='' @
            [CHR 0x22] @ ''invoice__line'' @ [CHR 0x22] @ ''.invoice_id '']"
    by code_simp
  ultimately show ?thesis by simp
qed

text \<open>
  C5 as the spec states it (INNER if and only if the reverse foreign key is required): the
  reverse key \<open>Invoice\<close> of a line is required, the field \<open>Lines\<close> is not, and the join
  of the lines is a LEFT join.
\<close>

theorem one2many_inner_counterexample:
  "map_sum id (map innerJoin) (generateTableJoins pgDeps demoRegistry invoiceModel [''lines'']) =
     Inr [False, False]
   \<and> map_option required (fieldsGet (modelFields (demoRegistry ''Line'')) (reverseFK linesField)) =
     Some True"
  by code_simp

subsection \<open>Null arguments in the WHERE clause\<close>

text \<open>
  C3. A predicate (not a nested condition) on a field of a foreign-key relation type whose
  argument casts to the integer 0 is rendered as \<open>IS NULL\<close> on the column of the field for
  the operator \<open>Equals\<close> and as \<open>IS NOT NULL\<close> for \<open>NotEquals\<close>, with no parameter; for every
  other operator the rendering panics and returns no SQL. (The column is resolved
  first: a panic of the join resolver is the result for every operator.)
\<close>

theorem null_predicate_rewrite:
  assumes leaf: "\<not> isCond p"
      and es: "jsonizeExpr ad mi (exprs p) = Inr es"
      and fi: "getRelatedFieldInfo ad mi es = Inr fi"
      and fk: "IsFKRelationType (fieldType fi)"
      and zero: "CastToInteger ad (arg p) = Some 0"
  shows "(operator p = Equals \<longrightarrow>
            predicateSQLClause ad reg mi p =
              (case joinedFieldExpression ad reg mi es False of
                 Inl err \<Rightarrow> Inl err
               | Inr fld \<Rightarrow> Inr (fld @ '' IS NULL'', [])))
       \<and> (operator p = NotEquals \<longrightarrow>
            predicateSQLClause ad reg mi p =
              (case joinedFieldExpression ad reg mi es False of
                 Inl err \<Rightarrow> Inl err
               | Inr fld \<Rightarrow> Inr (fld @ '' IS NOT NULL'', [])))
       \<and> (operator p \<noteq> Equals \<and> operator p \<noteq> NotEquals \<longrightarrow>
            (\<exists>err. predicateSQLClause ad reg mi p = Inl err) \<and>
            (\<not> isl (joinedFieldExpression ad reg mi es False) \<longrightarrow>
               predicateSQLClause ad reg mi p =
                 Inl (Panic ''Null argument can only be used with = and != operators'')))"
proof -
  obtain es0 oper a c io inn ic where p: "p = Predicate es0 oper a c io inn ic"
    by (cases p)
  show ?thesis
  proof (cases "joinedFieldExpression ad reg mi es False")
    case (Inl err)
    then show ?thesis using assms unfolding p by (cases oper) simp_all
  next
    case (Inr fld)
    then show ?thesis using assms unfolding p by (cases oper) simp_all
  qed
qed

theorem null_predicate_rewrite_witness:
  "predicateSQLClause pgDeps demoRegistry lineModel
     (Predicate [''invoice_id''] Equals (VInt 0) [] False False False) =
     Inr ([CHR 0x22] @ ''line'' @ [CHR 0x22] @ ''.invoice_id IS NULL'', [])
   \<and> predicateSQLClause pgDeps demoRegistry lineModel
     (Predicate [''invoice_id''] NotEquals (VInt 0) [] False False False) =
     Inr ([CHR 0x22] @ ''line'' @ [CHR 0x22] @ ''.invoice_id IS NOT NULL'', [])
   \<and> predicateSQLClause pgDeps demoRegistry lineModel
     (Predicate [''invoice_id''] (OtherOperator ''>'') (VInt 0) [] False False False) =
     Inl (Panic ''Null argument can only be used with = and != operators'')"
proof -
  have es: "jsonizeExpr pgDeps lineModel (exprs (Predicate [''invoice_id''] oper (VInt 0) [] False False False))
      = Inr [''invoice_id'']" for oper
    by (simp add: pgDeps_def)
  have fi: "getRelatedFieldInfo pgDeps lineModel [''invoice_id''] = Inr invoiceField"
    by (simp add: pgDeps_def lineModel_def MustGet_def fieldsGet_def plainField_def invoiceField_def)
  have fk: "IsFKRelationType (fieldType invoiceField)"
    by (simp add: IsFKRelationType_def invoiceField_def plainField_def)
  have zero: "CastToInteger pgDeps (arg (Predicate [''invoice_id''] oper (VInt 0) [] False False False)) = Some 0"
    for oper
    by (simp add: pgDeps_def)
  have col: "joinedFieldExpression pgDeps demoRegistry lineModel [''invoice_id''] False =
      Inr ([CHR 0x22] @ ''line'' @ [CHR 0x22] @ ''.invoice_id'')"
    by code_simp
  have leaf: "\<not> isCond (Predicate [''invoice_id''] oper (VInt 0) [] False False False)" for oper
    by simp
  from null_predicate_rewrite [OF leaf es fi fk zero, of Equals demoRegistry]
       null_predicate_rewrite [OF leaf es fi fk zero, of NotEquals demoRegistry]
       null_predicate_rewrite [OF leaf es fi fk zero, of "OtherOperator ''>''" demoRegistry]
  show ?thesis unfolding col by simp
qed

subsection \<open>The cache: lookups and many-to-many links\<close>

lemma get_single: "get reg c mi i [f] = getByRef reg c (mi, i) f"
  by (simp add: get_def)

lemma fieldsGet_in_set: "fieldsGet fs n = Some f \<Longrightarrow> f \<in> set fs"
  by (auto simp: fieldsGet_def find_Some_iff split: option.splits)

lemma MustGet_in_set: "MustGet fs n = Inr f \<Longrightarrow> f \<in> set fs"
  by (auto simp: MustGet_def dest: fieldsGet_in_set split: option.splits)

lemma m2mIndex_cases: "m2mIndex fi = 0 \<or> m2mIndex fi = 1"
  by (simp add: m2mIndex_def stringsCompare_def)

lemma linkAt_newLink_our: "oi = 0 \<or> oi = 1 \<Longrightarrow> linkAt (newLink oi i v) oi = i"
  by (auto simp: linkAt_def newLink_def)

lemma linkAt_newLink_their: "oi = 0 \<or> oi = 1 \<Longrightarrow> linkAt (newLink oi i v) ((oi + 1) mod 2) = v"
  by (auto simp: linkAt_def newLink_def)

lemma set_fold_insert:
  "set (fold (\<lambda>v l. List.insert (h v) l) vs links) = set links \<union> h ` set vs"
  by (induction vs arbitrary: links) auto

lemma getM2MLinks_set:
  "set (getM2MLinks c fi i) =
     {linkAt l ((m2mIndex fi + 1) mod 2) | l. l \<in> set (linksOf c (m2mRelModel fi)) \<and>
        linkAt l (m2mIndex fi) = i}"
  by (auto simp: getM2MLinks_def linksOf_def Let_def split: option.splits)

lemma linksOf_addM2MLink:
  "set (linksOf (addM2MLink c fi i vs) r) =
     (if r = m2mRelModel fi then set (linksOf c r) \<union> newLink (m2mIndex fi) i ` set vs
      else set (linksOf c r))"
  by (auto simp: addM2MLink_def linksOf_def Let_def set_fold_insert split: option.splits)

lemma linksOf_removeM2MLinks:
  "set (linksOf (removeM2MLinks c fi i) r) =
     (if r = m2mRelModel fi then {l \<in> set (linksOf c r). linkAt l (m2mIndex fi) \<noteq> i}
      else set (linksOf c r))"
  by (auto simp: removeM2MLinks_def linksOf_def split: option.splits)

lemma getM2MLinks_add:
  "set (getM2MLinks (addM2MLink c fi i vs) fi i) = set (getM2MLinks c fi i) \<union> set vs"
proof -
  have oi: "m2mIndex fi = 0 \<or> m2mIndex fi = 1" by (rule m2mIndex_cases)
  show ?thesis
  proof (rule set_eqI)
    fix x
    show "x \<in> set (getM2MLinks (addM2MLink c fi i vs) fi i) \<longleftrightarrow>
          x \<in> set (getM2MLinks c fi i) \<union> set vs"
    proof
      assume "x \<in> set (getM2MLinks (addM2MLink c fi i vs) fi i)"
      then obtain l where l: "x = linkAt l ((m2mIndex fi + 1) mod 2)"
        "l \<in> set (linksOf c (m2mRelModel fi)) \<or> l \<in> newLink (m2mIndex fi) i ` set vs"
        "linkAt l (m2mIndex fi) = i"
        unfolding getM2MLinks_set linksOf_addM2MLink by auto
      from l(2) show "x \<in> set (getM2MLinks c fi i) \<union> set vs"
      proof
        assume "l \<in> set (linksOf c (m2mRelModel fi))"
        then have "x \<in> set (getM2MLinks c fi i)"
          unfolding getM2MLinks_set using l(1,3) by blast
        then show ?thesis by simp
      next
        assume "l \<in> newLink (m2mIndex fi) i ` set vs"
        then obtain v where "v \<in> set vs" "l = newLink (m2mIndex fi) i v" by auto
        then have "x \<in> set vs" using l(1) linkAt_newLink_their [OF oi] by simp
        then show ?thesis by simp
      qed
    next
      assume "x \<in> set (getM2MLinks c fi i) \<union> set vs"
      then show "x \<in> set (getM2MLinks (addM2MLink c fi i vs) fi i)"
      proof
        assume "x \<in> set (getM2MLinks c fi i)"
        then obtain l where "x = linkAt l ((m2mIndex fi + 1) mod 2)"
          "l \<in> set (linksOf c (m2mRelModel fi))" "linkAt l (m2mIndex fi) = i"
          unfolding getM2MLinks_set by auto
        moreover from this have "l \<in> set (linksOf (addM2MLink c fi i vs) (m2mRelModel fi))"
          by (simp add: linksOf_addM2MLink)
        ultimately show ?thesis unfolding getM2MLinks_set by blast
      next
        assume x: "x \<in> set vs"
        have "x = linkAt (newLink (m2mIndex fi) i x) ((m2mIndex fi + 1) mod 2)"
          "linkAt (newLink (m2mIndex fi) i x) (m2mIndex fi) = i"
          using linkAt_newLink_their [OF oi] linkAt_newLink_our [OF oi] by simp_all
        moreover have "newLink (m2mIndex fi) i x \<in>
            set (linksOf (addM2MLink c fi i vs) (m2mRelModel fi))"
          using x by (simp add: linksOf_addM2MLink)
        ultimately show ?thesis unfolding getM2MLinks_set by blast
      qed
    qed
  qed
qed

lemma getM2MLinks_remove: "getM2MLinks (removeM2MLinks c fi i) fi i = []"
proof -
  have "set (getM2MLinks (removeM2MLinks c fi i) fi i) = {}"
    unfolding getM2MLinks_set linksOf_removeM2MLinks by auto
  then show ?thesis by simp
qed

lemma getM2MLinks_remove_mono:
  "getM2MLinks c fi i = [] \<Longrightarrow> getM2MLinks (removeM2MLinks c g j) fi i = []"
proof -
  assume "getM2MLinks c fi i = []"
  then have "set (getM2MLinks c fi i) = {}" by simp
  then have "set (getM2MLinks (removeM2MLinks c g j) fi i) = {}"
    unfolding getM2MLinks_set linksOf_removeM2MLinks by auto
  then show ?thesis by simp
qed

lemma paired_index: "paired f g \<Longrightarrow> m2mIndex g = (m2mIndex f + 1) mod 2"
  by (auto simp: paired_def m2mIndex_def stringsCompare_def)

lemma getM2MLinks_symmetric:
  assumes p: "paired f g" and v: "v \<in> set vs"
  shows "i \<in> set (getM2MLinks (addM2MLink c f i vs) g v)"
proof -
  have oi: "m2mIndex f = 0 \<or> m2mIndex f = 1" by (rule m2mIndex_cases)
  have gi: "m2mIndex g = (m2mIndex f + 1) mod 2" using p by (rule paired_index)
  have gt: "(m2mIndex g + 1) mod 2 = m2mIndex f" using oi gi by auto
  have rel: "m2mRelModel g = m2mRelModel f" using p by (simp add: paired_def)
  have "newLink (m2mIndex f) i v \<in> set (linksOf (addM2MLink c f i vs) (m2mRelModel g))"
    using v by (simp add: linksOf_addM2MLink rel)
  moreover have "linkAt (newLink (m2mIndex f) i v) (m2mIndex g) = v"
    using linkAt_newLink_their [OF oi] gi by simp
  moreover have "i = linkAt (newLink (m2mIndex f) i v) ((m2mIndex g + 1) mod 2)"
    using linkAt_newLink_our [OF oi] gt by simp
  ultimately show ?thesis unfolding getM2MLinks_set by blast
qed

lemma data_removeM2MLinks [simp]: "data (removeM2MLinks c fi i) = data c"
  by (simp add: removeM2MLinks_def split: option.splits)

lemma data_addM2MLink [simp]: "data (addM2MLink c fi i vs) = data c"
  by (simp add: addM2MLink_def Let_def)

lemma getM2MLinks_cong: "m2mLinks c' = m2mLinks c \<Longrightarrow> getM2MLinks c' fi i = getM2MLinks c fi i"
  by (simp add: getM2MLinks_def)

lemma setEntry_links: "setEntry c ref k v = Inr c' \<Longrightarrow> m2mLinks c' = m2mLinks c"
  by (auto simp: setEntry_def split: option.splits)

lemma setEntry_lookup: "setEntry c ref k v = Inr c' \<Longrightarrow> lookupEntry c' ref k = Some v"
  by (auto simp: setEntry_def lookupEntry_def update_conv' split: option.splits)

lemma setEntry_returns: "map_of (data c) ref \<noteq> None \<Longrightarrow> \<exists>c'. setEntry c ref k v = Inr c'"
  by (auto simp: setEntry_def)

text \<open>The entry of \<open>ref\<close> that \<open>updateEntryByRef\<close> creates first where there is none.\<close>

lemma created_entry: "map_of (data (ensureEntry c ref)) ref \<noteq> None"
  by (simp add: ensureEntry_def update_conv')

lemma invalidate_fold_data:
  "data (fold (\<lambda>fi c'. if fieldType fi = Many2Many then removeM2MLinks c' fi i else c') fs c) = data c"
  by (induction fs arbitrary: c) simp_all

lemma invalidate_fold_mono:
  "getM2MLinks c g i = [] \<Longrightarrow>
   getM2MLinks (fold (\<lambda>fi c'. if fieldType fi = Many2Many then removeM2MLinks c' fi i else c') fs c) g i = []"
  by (induction fs arbitrary: c) (simp_all add: getM2MLinks_remove_mono)

lemma invalidate_fold_links:
  "g \<in> set fs \<Longrightarrow> fieldType g = Many2Many \<Longrightarrow>
   getM2MLinks (fold (\<lambda>fi c'. if fieldType fi = Many2Many then removeM2MLinks c' fi i else c') fs c) g i = []"
proof (induction fs arbitrary: c)
  case Nil
  then show ?case by simp
next
  case (Cons f fs)
  show ?case
  proof (cases "g = f")
    case True
    then show ?thesis using Cons.prems
      by (simp add: invalidate_fold_mono getM2MLinks_remove)
  next
    case False
    then show ?thesis using Cons by simp
  qed
qed

lemma invalidateRecord_data:
  "data (invalidateRecord reg c mi i) = AList.delete (mi, i) (data c)"
  by (simp add: invalidateRecord_def invalidate_fold_data)

lemma invalidateRecord_entry: "map_of (data (invalidateRecord reg c mi i)) (mi, i) = None"
  by (simp add: invalidateRecord_data delete_conv')

text \<open>
  C6, as the code has it. After \<open>invalidateRecord\<close> the record has no entry: for every
  field of the model \<open>checkIfInCache\<close> reports that the value is not in the cache, and
  \<open>get\<close> returns \<open>nil\<close> for every field that is not a one-to-many, reverse one-to-one or
  many-to-many field. For a many-to-many field of the model \<open>get\<close> returns no link:
  the links that hold the id on the side of this model are removed, for every many-to-many
  field of the model. The value of a one-to-many or reverse one-to-one field is read from
  the reverse keys of the other records, which are left as they are.
\<close>

theorem invalidateRecord_miss:
  assumes f: "MustGet (modelFields (reg mi)) f = Inr fi"
  shows "checkIfInCache reg (invalidateRecord reg c mi i) mi [i] [[f]] = Inr False
       \<and> map_of (data (invalidateRecord reg c mi i)) (mi, i) = None
       \<and> (fieldType fi \<noteq> One2Many \<and> fieldType fi \<noteq> Rev2One \<and> fieldType fi \<noteq> Many2Many \<longrightarrow>
            get reg (invalidateRecord reg c mi i) mi i [f] = Inr VNil)
       \<and> (fieldType fi = Many2Many \<longrightarrow>
            get reg (invalidateRecord reg c mi i) mi i [f] = Inr (VIds []))
       \<and> (\<forall>g \<in> set (modelFields (reg mi)). fieldType g = Many2Many \<longrightarrow>
            getM2MLinks (invalidateRecord reg c mi i) g i = [])"
proof -
  let ?c = "invalidateRecord reg c mi i"
  have e: "lookupEntry ?c (mi, i) f = None"
    by (simp add: lookupEntry_def invalidateRecord_entry)
  have 1: "checkIfInCache reg ?c mi [i] [[f]] = Inr False"
    using e by (simp add: checkIfInCache_def)
  have links: "\<forall>g \<in> set (modelFields (reg mi)). fieldType g = Many2Many \<longrightarrow>
            getM2MLinks ?c g i = []"
    by (simp add: invalidateRecord_def invalidate_fold_links)
  have 3: "fieldType fi \<noteq> One2Many \<and> fieldType fi \<noteq> Rev2One \<and> fieldType fi \<noteq> Many2Many \<longrightarrow>
            get reg ?c mi i [f] = Inr VNil"
    using f e by (simp add: get_single getByRef_def)
  have "fi \<in> set (modelFields (reg mi))" using f by (rule MustGet_in_set)
  then have 4: "fieldType fi = Many2Many \<longrightarrow> get reg ?c mi i [f] = Inr (VIds [])"
    using f links by (simp add: get_single getByRef_def)
  show ?thesis using 1 invalidateRecord_entry 3 4 links by blast
qed

theorem invalidateRecord_miss_witness:
  "get demoRegistry (invalidateRecord demoRegistry demoCache ''Invoice'' 1) ''Invoice'' 1 [''total'']
     = Inr VNil
   \<and> get demoRegistry demoCache ''Invoice'' 1 [''total''] = Inr (VInt 25)
   \<and> get demoRegistry (invalidateRecord demoRegistry demoCache ''Post'' 7) ''Post'' 7 [''tags'']
     = Inr (VIds [])
   \<and> get demoRegistry demoCache ''Post'' 7 [''tags''] = Inr (VIds [1])"
proof -
  have t: "MustGet (modelFields (demoRegistry ''Invoice'')) ''total'' = Inr totalField"
    by code_simp
  have p: "MustGet (modelFields (demoRegistry ''Post'')) ''tags'' = Inr tagsField"
    by code_simp
  have tt: "fieldType totalField = Float" and pt: "fieldType tagsField = Many2Many"
    by (simp_all add: totalField_def tagsField_def plainField_def)
  have a: "get demoRegistry demoCache ''Invoice'' 1 [''total''] = Inr (VInt 25)"
    by code_simp
  have b: "get demoRegistry demoCache ''Post'' 7 [''tags''] = Inr (VIds [1])"
    by code_simp
  from invalidateRecord_miss [of demoRegistry "''Invoice''" "''total''" totalField demoCache 1, OF t]
       invalidateRecord_miss [of demoRegistry "''Post''" "''tags''" tagsField demoCache 7, OF p]
  show ?thesis using a b tt pt by simp
qed

text \<open>
  C6 as the spec states it (a miss for any field, no stale value): invoice 1 is
  invalidated, line 5 still holds its reverse key, and \<open>get\<close> of the lines of the invoice
  returns line 5.
\<close>

theorem invalidateRecord_stale_counterexample:
  "get demoRegistry (invalidateRecord demoRegistry demoCache ''Invoice'' 1) ''Invoice'' 1 [''lines'']
     = Inr (VIds [5])"
  by code_simp

lemma updateEntryByRef_plain:
  assumes f: "MustGet (modelFields (reg (fst ref))) f = Inr fi"
      and t: "fieldType fi \<noteq> One2Many" "fieldType fi \<noteq> Rev2One" "fieldType fi \<noteq> Many2Many"
  shows "updateEntryByRef (Suc n) reg c ref f v =
     Some (setEntry (ensureEntry c ref) ref f v)"
  using f t by (simp add: Let_def)

lemma updateEntryByRef_m2m:
  assumes f: "MustGet (modelFields (reg (fst ref))) f = Inr fi"
      and t: "fieldType fi = Many2Many"
  shows "updateEntryByRef (Suc n) reg c ref f (VIds ids) =
     Some (setEntry
       (addM2MLink
         (removeM2MLinks
           (ensureEntry c ref) fi (snd ref)) fi (snd ref) ids) ref f (VBool True))"
  using f t by (simp add: Let_def)

lemma round_trip_plain:
  assumes f: "MustGet (modelFields (reg (fst ref))) f = Inr fi"
      and t: "fieldType fi \<noteq> One2Many" "fieldType fi \<noteq> Rev2One" "fieldType fi \<noteq> Many2Many"
  shows "\<exists>c'. updateEntryByRef (Suc n) reg c ref f v = Some (Inr c') \<and>
              get reg c' (fst ref) (snd ref) [f] = Inr v"
proof -
  define c1 where "c1 = ensureEntry c ref"
  have "map_of (data c1) ref \<noteq> None" unfolding c1_def by (rule created_entry)
  then obtain c' where c': "setEntry c1 ref f v = Inr c'"
    using setEntry_returns by blast
  have u: "updateEntryByRef (Suc n) reg c ref f v = Some (Inr c')"
    using updateEntryByRef_plain [where reg = reg and ref = ref, OF f t] c' unfolding c1_def by simp
  have "lookupEntry c' ref f = Some v" using c' by (rule setEntry_lookup)
  then have "getByRef reg c' ref f = Inr v"
    using f t by (simp add: getByRef_def)
  then have "get reg c' (fst ref) (snd ref) [f] = Inr v"
    by (simp add: get_single)
  with u show ?thesis by blast
qed

lemma round_trip_m2m:
  assumes f: "MustGet (modelFields (reg (fst ref))) f = Inr fi"
      and t: "fieldType fi = Many2Many"
  shows "\<exists>c' xs. updateEntryByRef (Suc n) reg c ref f (VIds ids) = Some (Inr c') \<and>
              get reg c' (fst ref) (snd ref) [f] = Inr (VIds xs) \<and> set xs = set ids"
proof -
  define c1 where "c1 = ensureEntry c ref"
  define c2 where "c2 = addM2MLink (removeM2MLinks c1 fi (snd ref)) fi (snd ref) ids"
  have "map_of (data c1) ref \<noteq> None" unfolding c1_def by (rule created_entry)
  then have "map_of (data c2) ref \<noteq> None" by (simp add: c2_def)
  then obtain c' where c': "setEntry c2 ref f (VBool True) = Inr c'"
    using setEntry_returns by blast
  have u: "updateEntryByRef (Suc n) reg c ref f (VIds ids) = Some (Inr c')"
    using updateEntryByRef_m2m [where reg = reg and ref = ref, OF f t] c' unfolding c2_def c1_def by simp
  have "getM2MLinks c' fi (snd ref) = getM2MLinks c2 fi (snd ref)"
    using setEntry_links [OF c'] by (rule getM2MLinks_cong)
  moreover have "set (getM2MLinks c2 fi (snd ref)) = set ids"
    unfolding c2_def by (simp add: getM2MLinks_add getM2MLinks_remove)
  moreover have "get reg c' (fst ref) (snd ref) [f] = Inr (VIds (getM2MLinks c' fi (snd ref)))"
    using f t by (simp add: get_single getByRef_def)
  ultimately show ?thesis using u by auto
qed




subsection \<open>The id of a cache entry\<close>

lemma in_update: "e \<in> set (AList.update k v al) \<Longrightarrow> e = (k, v) \<or> e \<in> set al"
  by (induction al) (auto split: if_splits)

lemma idInv_update:
  "idInv c \<Longrightarrow> fm ''id'' = Some (VInt (snd ref)) \<Longrightarrow>
   idInv (c\<lparr>data := AList.update ref fm (data c)\<rparr>)"
  unfolding idInv_def by (auto dest!: in_update)

lemma idInv_entry: "idInv c \<Longrightarrow> map_of (data c) ref = Some fm \<Longrightarrow> fm ''id'' = Some (VInt (snd ref))"
  unfolding idInv_def by (auto dest!: map_of_SomeD)

lemma idInv_created: "idInv c \<Longrightarrow> idInv (ensureEntry c ref)"
  by (simp add: ensureEntry_def idInv_update)

lemma idInv_setEntry:
  assumes "idInv c" and "idSafe ref k v" and "setEntry c ref k v = Inr c'"
  shows "idInv c'"
proof -
  from assms(3) obtain fm where fm: "map_of (data c) ref = Some fm"
    and c': "c' = c\<lparr>data := AList.update ref (fm(k \<mapsto> v)) (data c)\<rparr>"
    by (auto simp: setEntry_def split: option.splits)
  have "fm ''id'' = Some (VInt (snd ref))" using assms(1) fm by (rule idInv_entry)
  then have "(fm(k \<mapsto> v)) ''id'' = Some (VInt (snd ref))"
    using assms(2) by (simp add: idSafe_def)
  then show ?thesis unfolding c' using assms(1) by (rule idInv_update [rotated])
qed

lemma idInv_delEntry:
  assumes "idInv c" and "k \<noteq> ''id''"
  shows "idInv (delEntry c ref k)"
proof (cases "map_of (data c) ref")
  case None
  then show ?thesis using assms(1) by (simp add: delEntry_def)
next
  case (Some fm)
  have "fm ''id'' = Some (VInt (snd ref))" using assms(1) Some by (rule idInv_entry)
  then have "(fm(k := None)) ''id'' = Some (VInt (snd ref))" using assms(2) by simp
  then show ?thesis using Some assms(1) by (simp add: delEntry_def idInv_update)
qed

lemma forEach_preserves:
  assumes step: "\<And>c x c'. P c \<Longrightarrow> x \<in> set xs \<Longrightarrow> f c x = Some (Inr c') \<Longrightarrow> P c'"
  shows "P c \<Longrightarrow> forEach f c xs = Some (Inr c') \<Longrightarrow> P c'"
  using step
proof (induction xs arbitrary: c)
  case Nil
  from Nil(2) have "c' = c" by simp
  with Nil(1) show ?case by simp
next
  case (Cons x xs)
  have tail: "\<And>c0 y c0'. P c0 \<Longrightarrow> y \<in> set xs \<Longrightarrow> f c0 y = Some (Inr c0') \<Longrightarrow> P c0'"
  proof -
    fix c0 y c0'
    assume "P c0" "y \<in> set xs" "f c0 y = Some (Inr c0')"
    then show "P c0'" using Cons.prems(3) [of c0 y c0'] by simp
  qed
  show ?case
  proof (cases "f c x")
    case None
    then show ?thesis using Cons.prems(2) by simp
  next
    case (Some r)
    show ?thesis
    proof (cases r)
      case (Inl err)
      show ?thesis
      proof (cases err)
        case (Panic m)
        then show ?thesis using Cons.prems(2) Some Inl by simp
      next
        case (Err m)
        then have "forEach f c xs = Some (Inr c')" using Cons.prems(2) Some Inl by simp
        with Cons.prems(1) show ?thesis using tail by (rule Cons.IH)
      qed
    next
      case (Inr c1)
      then have run: "forEach f c1 xs = Some (Inr c')" using Cons.prems(2) Some by simp
      have "x \<in> set (x # xs)" by simp
      with Cons.prems(1) have "P c1" using Some [unfolded Inr] by (rule Cons.prems(3))
      then show ?thesis using run tail by (rule Cons.IH)
    qed
  qed
qed

lemma getRelatedRef_last:
  "getRelatedRef reg c mi i path = Inr (ref, k) \<Longrightarrow> k = last path \<and> (length path = 1 \<longrightarrow> ref = (mi, i))"
proof (induction reg c mi i path rule: getRelatedRef.induct)
  case (1 reg c mi i)
  then show ?case by simp
next
  case (2 reg c mi i e)
  then show ?case by simp
next
  case (3 reg c mi i e e' es)
  from "3.prems" obtain relMI fkID where
    "getRelatedModelInfo reg mi e = Inr relMI" "getByRef reg c (mi, i) e = Inr (VInt fkID)"
    "getRelatedRef reg c relMI fkID (e' # es) = Inr (ref, k)"
    by (auto split: sum.splits val.splits)
  then show ?case using "3.IH" by simp
qed

lemma idSafePath_resolved:
  assumes "idSafePath i path v" and "getRelatedRef reg c mi i path = Inr (ref, k)"
  shows "idSafe ref k v"
proof -
  from getRelatedRef_last [OF assms(2)] have k: "k = last path"
    and r: "length path = 1 \<longrightarrow> ref = (mi, i)" by simp_all
  show ?thesis unfolding idSafe_def
  proof
    assume "k = ''id''"
    then have "path = [''id'']" "v = VInt i" using assms(1) k by (simp_all add: idSafePath_def)
    then show "v = VInt (snd ref)" using r by simp
  qed
qed

lemma updateEntry_preserves:
  assumes byRef: "\<And>c ref k v c'. idInv c \<Longrightarrow> idSafe ref k v \<Longrightarrow>
                    updateEntryByRef n reg c ref k v = Some (Inr c') \<Longrightarrow> idInv c'"
      and inv: "idInv c" and safe: "idSafePath i path v"
      and run: "updateEntry n reg c mi i path v = Some (Inr c')"
  shows "idInv c'"
proof -
  from run obtain ref k where r: "getRelatedRef reg c mi i path = Inr (ref, k)"
    and u: "updateEntryByRef n reg c ref k v = Some (Inr c')"
    by (auto split: sum.splits)
  from safe r have "idSafe ref k v" by (rule idSafePath_resolved)
  with inv show ?thesis using u by (rule byRef)
qed

lemma updateEntryByRef_one2many:
  assumes "MustGet (modelFields (reg (fst ref))) k = Inr fi" and "fieldType fi = One2Many"
  shows "updateEntryByRef (Suc n) reg c ref k (VIds ids) =
     (case relatedModel fi of
        None \<Rightarrow>
          if ids = [] then Some (setEntry (ensureEntry c ref) ref k (VBool True))
          else Some (Inl (Panic ''nil pointer dereference''))
      | Some rm \<Rightarrow>
         (case forEach (\<lambda>c' i. updateEntry n reg c' rm i [jsonReverseFK fi] (VInt (snd ref)))
                 (ensureEntry c ref) ids of
            None \<Rightarrow> None
          | Some (Inl err) \<Rightarrow> Some (Inl err)
          | Some (Inr c2) \<Rightarrow> Some (setEntry c2 ref k (VBool True))))"
  using assms by (simp add: Let_def)

lemma updateEntryByRef_rev2one:
  assumes "MustGet (modelFields (reg (fst ref))) k = Inr fi" and "fieldType fi = Rev2One"
  shows "updateEntryByRef (Suc n) reg c ref k (VInt j) =
     (case relatedModel fi of
        None \<Rightarrow> Some (Inl (Panic ''nil pointer dereference''))
      | Some rm \<Rightarrow>
         (case updateEntry n reg (ensureEntry c ref) rm j [jsonReverseFK fi] (VInt (snd ref)) of
            None \<Rightarrow> None
          | Some (Inl (Panic m)) \<Rightarrow> Some (Inl (Panic m))
          | Some (Inl (Err _)) \<Rightarrow> Some (setEntry (ensureEntry c ref) ref k (VBool True))
          | Some (Inr c2) \<Rightarrow> Some (setEntry c2 ref k (VBool True))))"
  using assms by (simp add: Let_def)

lemma updateEntryByRef_conversion:
  assumes "MustGet (modelFields (reg (fst ref))) k = Inr fi"
      and "(fieldType fi = One2Many \<or> fieldType fi = Many2Many) \<and> (\<forall>ids. v \<noteq> VIds ids)
           \<or> fieldType fi = Rev2One \<and> (\<forall>j. v \<noteq> VInt j)"
  shows "updateEntryByRef (Suc n) reg c ref k v = Some (Inl (Panic ''interface conversion''))"
  using assms by (cases v) (auto simp: Let_def)

lemma updateEntryByRef_unknown:
  assumes "MustGet (modelFields (reg (fst ref))) k = Inl err"
  shows "updateEntryByRef (Suc n) reg c ref k v = Some (Inl err)"
  using assms by (simp add: Let_def)

declare updateEntryByRef.simps [simp del]

lemma updateEntryByRef_preserves:
  assumes schema: "idSchema reg"
  shows "idInv c \<Longrightarrow> idSafe ref k v \<Longrightarrow> updateEntryByRef n reg c ref k v = Some (Inr c') \<Longrightarrow>
         idInv c'"
proof (induction n arbitrary: c ref k v c')
  case 0
  then show ?case by (simp add: updateEntryByRef.simps(1))
next
  case (Suc n)
  define c1 where "c1 = ensureEntry c ref"
  have inv1: "idInv c1" unfolding c1_def using Suc.prems(1) by (rule idInv_created)
  obtain fi where fi: "MustGet (modelFields (reg (fst ref))) k = Inr fi"
  proof (cases "MustGet (modelFields (reg (fst ref))) k")
    case (Inl err)
    then have "updateEntryByRef (Suc n) reg c ref k v = Some (Inl err)"
      by (rule updateEntryByRef_unknown)
    then show ?thesis using Suc.prems(3) by simp
  next
    case (Inr fi)
    then show ?thesis using that by blast
  qed
  have mem: "fi \<in> set (modelFields (reg (fst ref)))" using fi by (rule MustGet_in_set)
  have rfk: "jsonReverseFK fi \<noteq> ''id''" using schema mem by (auto simp: idSchema_def)
  have plain_id: "k = ''id'' \<Longrightarrow>
      fieldType fi \<noteq> One2Many \<and> fieldType fi \<noteq> Rev2One \<and> fieldType fi \<noteq> Many2Many"
    using schema mem fi by (auto simp: idSchema_def)
  have nested: "\<And>c0 rm j c0'. idInv c0 \<Longrightarrow>
      updateEntry n reg c0 rm j [jsonReverseFK fi] (VInt (snd ref)) = Some (Inr c0') \<Longrightarrow> idInv c0'"
  proof -
    fix c0 rm j c0'
    assume i0: "idInv c0"
      and r0: "updateEntry n reg c0 rm j [jsonReverseFK fi] (VInt (snd ref)) = Some (Inr c0')"
    have "idSafePath j [jsonReverseFK fi] (VInt (snd ref))" using rfk by (simp add: idSafePath_def)
    with Suc.IH i0 show "idInv c0'" using r0 by (rule updateEntry_preserves)
  qed
  have flag: "idSafe ref k (VBool True)" if "fieldType fi = One2Many \<or> fieldType fi = Rev2One \<or>
      fieldType fi = Many2Many"
    using that plain_id by (auto simp: idSafe_def)
  have conv: "updateEntryByRef (Suc n) reg c ref k v \<noteq> Some (Inl (Panic ''interface conversion''))"
    using Suc.prems(3) by simp
  consider (o2m) "fieldType fi = One2Many" | (r2o) "fieldType fi = Rev2One"
    | (m2m) "fieldType fi = Many2Many"
    | (plain) "fieldType fi \<noteq> One2Many" "fieldType fi \<noteq> Rev2One" "fieldType fi \<noteq> Many2Many"
    by blast
  then show ?case
  proof cases
    case o2m
    then obtain ids where v: "v = VIds ids"
      using updateEntryByRef_conversion [where reg = reg and ref = ref, OF fi, of v n c] conv by blast
    note run = Suc.prems(3) [unfolded v updateEntryByRef_one2many [where reg = reg and ref = ref, OF fi o2m]]
    show ?thesis
    proof (cases "relatedModel fi")
      case None
      then have "setEntry c1 ref k (VBool True) = Inr c'"
        using run unfolding c1_def by (simp split: if_splits)
      with inv1 flag o2m show ?thesis using idInv_setEntry by blast
    next
      case (Some rm)
      let ?loop = "forEach (\<lambda>c' i. updateEntry n reg c' rm i [jsonReverseFK fi] (VInt (snd ref))) c1 ids"
      from run Some obtain c2 where loop: "?loop = Some (Inr c2)"
        and set: "setEntry c2 ref k (VBool True) = Inr c'"
        unfolding c1_def by (cases ?loop) (auto split: sum.splits simp: c1_def)
      have "idInv c2"
        using forEach_preserves [where P = idInv, OF _ inv1 loop] nested by blast
      with flag o2m set show ?thesis using idInv_setEntry by blast
    qed
  next
    case r2o
    then obtain j where v: "v = VInt j"
      using updateEntryByRef_conversion [where reg = reg and ref = ref, OF fi, of v n c] conv by blast
    note run = Suc.prems(3) [unfolded v updateEntryByRef_rev2one [where reg = reg and ref = ref, OF fi r2o]]
    from run obtain rm where rm: "relatedModel fi = Some rm"
      by (cases "relatedModel fi") auto
    let ?u = "updateEntry n reg c1 rm j [jsonReverseFK fi] (VInt (snd ref))"
    from run rm have
      "(\<exists>m. ?u = Some (Inl (Err m)) \<and> setEntry c1 ref k (VBool True) = Inr c') \<or>
       (\<exists>c2. ?u = Some (Inr c2) \<and> setEntry c2 ref k (VBool True) = Inr c')"
      unfolding c1_def by (auto split: option.splits sum.splits error.splits)
    then show ?thesis
    proof
      assume "\<exists>m. ?u = Some (Inl (Err m)) \<and> setEntry c1 ref k (VBool True) = Inr c'"
      with inv1 flag r2o show ?thesis using idInv_setEntry by blast
    next
      assume "\<exists>c2. ?u = Some (Inr c2) \<and> setEntry c2 ref k (VBool True) = Inr c'"
      then obtain c2 where u: "?u = Some (Inr c2)" and set: "setEntry c2 ref k (VBool True) = Inr c'"
        by blast
      have "idInv c2" using inv1 u by (rule nested)
      with flag r2o set show ?thesis using idInv_setEntry by blast
    qed
  next
    case m2m
    then obtain ids where v: "v = VIds ids"
      using updateEntryByRef_conversion [where reg = reg and ref = ref, OF fi, of v n c] conv by blast
    let ?c2 = "addM2MLink (removeM2MLinks c1 fi (snd ref)) fi (snd ref) ids"
    have set: "setEntry ?c2 ref k (VBool True) = Inr c'"
      using Suc.prems(3) updateEntryByRef_m2m [where reg = reg and ref = ref, OF fi m2m, of n c ids]
      unfolding c1_def v by simp
    have "idInv ?c2" using inv1 by (simp add: idInv_def)
    with flag m2m set show ?thesis using idInv_setEntry by blast
  next
    case plain
    have "setEntry c1 ref k v = Inr c'"
      using Suc.prems(3) updateEntryByRef_plain [where reg = reg and ref = ref, OF fi plain, of n c v]
      unfolding c1_def by simp
    with inv1 Suc.prems(2) show ?thesis using idInv_setEntry by blast
  qed
qed

lemma setEntry_entryId:
  assumes "idInv c'" and "setEntry c ref k v = Inr c'"
  shows "entryId c' ref = Some (Some (VInt (snd ref)))"
proof -
  from assms(2) obtain fm where "map_of (data c') ref = Some fm"
    by (auto simp: setEntry_def update_conv' split: option.splits)
  moreover from this have "fm ''id'' = Some (VInt (snd ref))" using assms(1) idInv_entry by blast
  ultimately show ?thesis by (simp add: entryId_def)
qed

lemma updateEntryByRef_ends_with_set:
  assumes "updateEntryByRef n reg c ref k v = Some (Inr c')"
  shows "\<exists>c2 v'. setEntry c2 ref k v' = Inr c'"
proof (cases n)
  case 0
  then show ?thesis using assms by (simp add: updateEntryByRef.simps(1))
next
  case (Suc m)
  note run = assms [unfolded Suc]
  obtain fi where fi: "MustGet (modelFields (reg (fst ref))) k = Inr fi"
  proof (cases "MustGet (modelFields (reg (fst ref))) k")
    case (Inl err)
    then have "updateEntryByRef (Suc m) reg c ref k v = Some (Inl err)"
      by (rule updateEntryByRef_unknown)
    then show ?thesis using run by simp
  next
    case (Inr fi)
    then show ?thesis using that by blast
  qed
  have conv: "updateEntryByRef (Suc m) reg c ref k v \<noteq> Some (Inl (Panic ''interface conversion''))"
    using run by simp
  consider (o2m) "fieldType fi = One2Many" | (r2o) "fieldType fi = Rev2One"
    | (m2m) "fieldType fi = Many2Many"
    | (plain) "fieldType fi \<noteq> One2Many" "fieldType fi \<noteq> Rev2One" "fieldType fi \<noteq> Many2Many"
    by blast
  then show ?thesis
  proof cases
    case o2m
    then obtain ids where v: "v = VIds ids"
      using updateEntryByRef_conversion [where reg = reg and ref = ref, OF fi, of v m c] conv by blast
    note run' = run [unfolded v updateEntryByRef_one2many [where reg = reg and ref = ref, OF fi o2m]]
    show ?thesis
    proof (cases "relatedModel fi")
      case None
      then have "setEntry (ensureEntry c ref) ref k (VBool True) = Inr c'"
        using run' by (simp split: if_splits)
      then show ?thesis by blast
    next
      case (Some rm)
      let ?loop = "forEach (\<lambda>c' i. updateEntry m reg c' rm i [jsonReverseFK fi] (VInt (snd ref)))
                     (ensureEntry c ref) ids"
      from run' Some obtain c2 where "setEntry c2 ref k (VBool True) = Inr c'"
        by (cases ?loop) (auto split: sum.splits)
      then show ?thesis by blast
    qed
  next
    case r2o
    then obtain j where v: "v = VInt j"
      using updateEntryByRef_conversion [where reg = reg and ref = ref, OF fi, of v m c] conv by blast
    note run' = run [unfolded v updateEntryByRef_rev2one [where reg = reg and ref = ref, OF fi r2o]]
    from run' obtain rm where rm: "relatedModel fi = Some rm"
      by (cases "relatedModel fi") auto
    from run' rm show ?thesis
      by (auto split: option.splits sum.splits error.splits)
  next
    case m2m
    then obtain ids where v: "v = VIds ids"
      using updateEntryByRef_conversion [where reg = reg and ref = ref, OF fi, of v m c] conv by blast
    show ?thesis
      using run updateEntryByRef_m2m [where reg = reg and ref = ref, OF fi m2m, of m c ids]
      unfolding v by auto
  next
    case plain
    show ?thesis
      using run updateEntryByRef_plain [where reg = reg and ref = ref, OF fi plain, of m c v]
      by auto
  qed
qed

lemma addRecord_preserves:
  assumes schema: "idSchema reg" and inv: "idInv c"
      and safe: "\<forall>pv \<in> set fMap. idSafePath i (fst pv) (snd pv)"
      and run: "addRecord n reg c mi i fMap = Some (Inr c')"
  shows "idInv c'"
proof -
  define ordered where "ordered =
     concat (map (\<lambda>l. filter (\<lambda>pv. length (fst pv) = l) fMap)
       [0 ..< Suc (foldr max (map (\<lambda>pv. length (fst pv)) fMap) 0)])"
  have sub: "set ordered \<subseteq> set fMap" unfolding ordered_def by auto
  have loop: "forEach (\<lambda>c' pv. updateEntry n reg c' mi i (fst pv) (snd pv)) c ordered = Some (Inr c')"
    using run unfolding addRecord_def ordered_def by (simp add: Let_def)
  have step: "\<And>c0 pv c0'. idInv c0 \<Longrightarrow> pv \<in> set ordered \<Longrightarrow>
      updateEntry n reg c0 mi i (fst pv) (snd pv) = Some (Inr c0') \<Longrightarrow> idInv c0'"
  proof -
    fix c0 pv c0'
    assume i0: "idInv c0" and m: "pv \<in> set ordered"
      and r0: "updateEntry n reg c0 mi i (fst pv) (snd pv) = Some (Inr c0')"
    have s0: "idSafePath i (fst pv) (snd pv)" using safe m sub by blast
    show "idInv c0'"
      using updateEntryByRef_preserves [OF schema] i0 s0 r0 by (rule updateEntry_preserves)
  qed
  show ?thesis
    using forEach_preserves [where P = idInv, OF _ inv loop] step by blast
qed

lemma removeEntry_preserves:
  assumes inv: "idInv c" and path: "path \<noteq> [''id'']"
      and run: "removeEntry reg c mi i path = Inr c'"
  shows "idInv c'"
proof -
  from run obtain ok where ok: "checkIfInCache reg c mi [i] [path] = Inr ok"
    by (cases "checkIfInCache reg c mi [i] [path]") (auto simp: removeEntry_def)
  show ?thesis
  proof (cases ok)
    case False
    then have "c' = c" using run ok by (simp add: removeEntry_def)
    then show ?thesis using inv by simp
  next
    case True
    then obtain f where f: "path = [f]"
      using run ok by (cases path; cases "tl path") (auto simp: removeEntry_def)
    then have nid: "f \<noteq> ''id''" using path by simp
    have inv1: "idInv (delEntry c (mi, i) f)" using inv nid by (rule idInv_delEntry)
    from run ok True f have
      "c' = delEntry c (mi, i) f \<or> (\<exists>fi. c' = removeM2MLinks (delEntry c (mi, i) f) fi i)"
      by (auto simp: removeEntry_def Let_def split: sum.splits if_splits)
    then show ?thesis using inv1 by (auto simp: idInv_def)
  qed
qed


lemma idSchema_demoRegistry: "idSchema demoRegistry"
proof -
  have m: "demoRegistry m \<in> {invoiceModel, lineModel, postModel, tagModel, postTagRelModel}" for m
    by (simp add: demoRegistry_def)
  have "\<forall>fi \<in> set (modelFields M).
        jsonReverseFK fi \<noteq> ''id'' \<and>
        (MustGet (modelFields M) ''id'' = Inr fi \<longrightarrow>
           fieldType fi \<noteq> One2Many \<and> fieldType fi \<noteq> Rev2One \<and> fieldType fi \<noteq> Many2Many)"
    if "M \<in> {invoiceModel, lineModel, postModel, tagModel, postTagRelModel}" for M
    using that
    by (auto simp: invoiceModel_def lineModel_def postModel_def tagModel_def postTagRelModel_def
        plainField_def linesField_def totalField_def taxField_def noteField_def invoiceField_def
        tagsField_def postsField_def MustGet_def fieldsGet_def)
  then show ?thesis unfolding idSchema_def using m by blast
qed



end
